theory Spec2Isabelle
  imports Main "HOL-Library.Sublist"
begin

section \<open>Python text\<close>

text \<open>
  A Python \<open>str\<close> is a sequence of Unicode code points; it is modelled as a list of
  natural numbers, one per code point, so that slicing and lengths count what Python counts.
  \<open>u\<close> turns an ASCII literal into such a text.
\<close>

type_synonym pystr = "nat list"

definition u :: "string \<Rightarrow> pystr" where
  "u s = map of_char s"

text \<open>
  The characters that \<open>str.strip()\<close> removes and that \<open>\s\<close> matches in a \<open>str\<close> pattern:
  both use the interpreter's one whitespace test.
\<close>

definition is_space :: "nat \<Rightarrow> bool" where
  "is_space c \<longleftrightarrow>
     (9 \<le> c \<and> c \<le> 13) \<or> (28 \<le> c \<and> c \<le> 32) \<or> c = 133 \<or> c = 160 \<or> c = 5760 \<or>
     (8192 \<le> c \<and> c \<le> 8202) \<or> c = 8232 \<or> c = 8233 \<or> c = 8239 \<or> c = 8287 \<or> c = 12288"

definition lstrip :: "pystr \<Rightarrow> pystr" where
  "lstrip t = dropWhile is_space t"

definition rstrip :: "pystr \<Rightarrow> pystr" where
  "rstrip t = rev (dropWhile is_space (rev t))"

definition strip :: "pystr \<Rightarrow> pystr" where
  "strip t = rstrip (lstrip t)"

definition fence :: pystr where
  "fence = u ''```''"

definition json_kw :: pystr where
  "json_kw = u ''json''"

section \<open>The two regular expressions of the source\<close>

text \<open>
  \<open>re\<close> is a backtracking matcher: at each start position it tries the alternatives of
  the pattern in priority order (a greedy item longest first, a lazy item shortest first)
  and returns the first complete match. The functions below are that search, written out
  for the two patterns the source uses.
\<close>

fun first_some :: "'a option list \<Rightarrow> 'a option" where
  "first_some [] = None"
| "first_some (None # xs) = first_some xs"
| "first_some (Some x # xs) = Some x"

definition ws_run :: "pystr \<Rightarrow> nat" where
  "ws_run t = length (takeWhile is_space t)"

text \<open>The counts a greedy \<open>\s*\<close> tries at \<open>t\<close>: the whole whitespace run first, then less.\<close>

definition greedy_ws :: "pystr \<Rightarrow> nat list" where
  "greedy_ws t = rev [0..<Suc (ws_run t)]"

text \<open>The tail \<open>\s*```\<close> of the fence pattern, anchored at \<open>t\<close>.\<close>

definition rx_close :: "pystr \<Rightarrow> bool" where
  "rx_close t = list_ex (\<lambda>k. prefix fence (drop k t)) (greedy_ws t)"

text \<open>
  \<open>(.*?)\s*```\<close> anchored at \<open>t\<close>, under \<open>re.DOTALL\<close> (the dot matches every character):
  the lazy group grows one character at a time until the tail matches. The result is group 1.
\<close>

fun rx_group :: "pystr \<Rightarrow> pystr option" where
  "rx_group [] = (if rx_close [] then Some [] else None)"
| "rx_group (c # cs) =
     (if rx_close (c # cs) then Some [] else map_option ((#) c) (rx_group cs))"

text \<open>\<open>\s*(.*?)\s*```\<close> anchored at \<open>t\<close>.\<close>

definition rx_ws_group :: "pystr \<Rightarrow> pystr option" where
  "rx_ws_group t = first_some (map (\<lambda>k. rx_group (drop k t)) (greedy_ws t))"

text \<open>\<open>(?:json)?\s*(.*?)\s*```\<close> anchored at \<open>t\<close>: the optional tag is tried first.\<close>

definition rx_tag_group :: "pystr \<Rightarrow> pystr option" where
  "rx_tag_group t =
     first_some ((if prefix json_kw t then [rx_ws_group (drop 4 t)] else []) @ [rx_ws_group t])"

definition rx_fence_at :: "pystr \<Rightarrow> pystr option" where
  "rx_fence_at t = (if prefix fence t then rx_tag_group (drop 3 t) else None)"

text \<open>
  \<open>re.search(r"```(?:json)?\s*(.*?)\s*```", text, re.DOTALL)\<close>: the leftmost start position
  with a match; \<open>None\<close> when there is none, else \<open>match.group(1)\<close>.
\<close>

fun re_search_fence :: "pystr \<Rightarrow> pystr option" where
  "re_search_fence [] = rx_fence_at []"
| "re_search_fence (c # cs) =
     (case rx_fence_at (c # cs) of Some g \<Rightarrow> Some g | None \<Rightarrow> re_search_fence cs)"

text \<open>
  \<open>\{[\s\S]*\}\<close> anchored at \<open>t\<close>: an opening brace, then the greedy class takes as much
  as it can and gives characters back until a closing brace follows. The result is group 0.
\<close>

definition rx_braces_at :: "pystr \<Rightarrow> pystr option" where
  "rx_braces_at t =
     (case t of
        [] \<Rightarrow> None
      | c # r \<Rightarrow>
          if c = 123 then
            first_some (map (\<lambda>k. if prefix [125] (drop k r) then Some (c # take k r @ [125]) else None)
                            (rev [0..<Suc (length r)]))
          else None)"

text \<open>\<open>re.search(r'\{[\s\S]*\}', text)\<close>, giving \<open>match.group(0)\<close>.\<close>

fun re_search_braces :: "pystr \<Rightarrow> pystr option" where
  "re_search_braces [] = None"
| "re_search_braces (c # cs) =
     (case rx_braces_at (c # cs) of Some g \<Rightarrow> Some g | None \<Rightarrow> re_search_braces cs)"

section \<open>Fence stripping\<close>

text \<open>\<open>_strip_markdown\<close> (main.py, lines 78 to 97).\<close>

definition strip_markdown :: "pystr \<Rightarrow> pystr" where
  "strip_markdown text0 =
     (let text1 = strip text0;
          text2 = (if prefix fence text1
                   then (case re_search_fence text1 of
                           Some g \<Rightarrow> strip g
                         | None \<Rightarrow> text1)
                   else text1)
      in if prefix json_kw text2 then strip (drop 4 text2) else text2)"

section \<open>Values, exceptions and records\<close>

text \<open>
  What \<open>json.loads\<close> returns. A \<open>dict\<close> is an association list with distinct keys in
  insertion order. A \<open>float\<close> is kept as the literal that denotes it (a number literal,
  \<open>NaN\<close>, \<open>Infinity\<close> or \<open>-Infinity\<close>): the source never computes with one, it only
  passes it to \<open>int\<close> or \<open>str\<close>.
\<close>

datatype json =
    JNull
  | JBool bool
  | JInt int
  | JFloat pystr
  | JStr pystr
  | JList "json list"
  | JDict "(pystr \<times> json) list"

text \<open>
  Exceptions, by the classes the \<open>except\<close> clauses of the source tell apart. The text is
  what \<open>str(e)\<close> returns; \<open>HTTPException\<close> carries its status code and detail.
  \<open>JSONDecodeError\<close> and pydantic's \<open>ValidationError\<close> are subclasses of \<open>ValueError\<close>.
\<close>

datatype exn =
    JSONDecodeError pystr
  | ValueError pystr
  | ValidationError pystr
  | TypeError pystr
  | KeyError pystr
  | OverflowError pystr
  | UnboundLocalError pystr
  | OtherException pystr
  | HTTPException nat pystr

fun is_JSONDecodeError :: "exn \<Rightarrow> bool" where
  "is_JSONDecodeError (JSONDecodeError m) = True"
| "is_JSONDecodeError e = False"

fun is_ValueError :: "exn \<Rightarrow> bool" where
  "is_ValueError (JSONDecodeError m) = True"
| "is_ValueError (ValueError m) = True"
| "is_ValueError (ValidationError m) = True"
| "is_ValueError e = False"

record EvaluationResponse =
  score :: int
  summary :: pystr
  improvement :: pystr

section \<open>The interpreter, the libraries and the provider\<close>

text \<open>
  Failures raised by the interpreter or by a library on behalf of the source; the wording of
  their messages is the library's.
\<close>

datatype failure =
    NotIterable json
  | NotSubscriptable json
  | MissingKey pystr
  | ScoreOutOfRange int
  | UnboundLocal

text \<open>
  Everything the source calls but does not define is a parameter of the model:
  \<^item> \<open>groq_available\<close>, \<open>groq_import_error\<close>: the module globals set at import time;
  \<^item> \<open>create\<close>: the chat completion call. \<open>create E n prompt\<close> is the outcome of the
    call number \<open>n\<close> (counted from 0) with user prompt \<open>prompt\<close>: the content of the first
    choice, or the exception raised by the call or by reading that content;
  \<^item> \<open>json_loads\<close>, \<open>py_int\<close>: \<open>json.loads\<close> and \<open>int\<close>;
  \<^item> \<open>py_repr\<close>: \<open>repr\<close> of a parsed value;
  \<^item> \<open>message\<close>: the message of an interpreter or library failure;
  \<^item> \<open>http_str\<close>: \<open>str\<close> of an \<open>HTTPException\<close> with a status code and a detail.
\<close>

record env =
  groq_available :: bool
  groq_import_error :: pystr
  create :: "nat \<Rightarrow> pystr \<Rightarrow> exn + pystr"
  json_loads :: "pystr \<Rightarrow> exn + json"
  py_int :: "json \<Rightarrow> exn + int"
  py_repr :: "json \<Rightarrow> pystr"
  message :: "failure \<Rightarrow> pystr"
  http_str :: "nat \<Rightarrow> pystr \<Rightarrow> pystr"

text \<open>\<open>str(v)\<close> and \<open>f"{v}"\<close> of a parsed value: a \<open>str\<close> is itself, anything else its \<open>repr\<close>.\<close>

definition py_str :: "env \<Rightarrow> json \<Rightarrow> pystr" where
  "py_str E v = (case v of JStr s \<Rightarrow> s | _ \<Rightarrow> py_repr E v)"

text \<open>\<open>str(e)\<close> of an exception.\<close>

fun exn_str :: "env \<Rightarrow> exn \<Rightarrow> pystr" where
  "exn_str E (JSONDecodeError m) = m"
| "exn_str E (ValueError m) = m"
| "exn_str E (ValidationError m) = m"
| "exn_str E (TypeError m) = m"
| "exn_str E (KeyError m) = m"
| "exn_str E (OverflowError m) = m"
| "exn_str E (UnboundLocalError m) = m"
| "exn_str E (OtherException m) = m"
| "exn_str E (HTTPException code detail) = http_str E code detail"

text \<open>\<open>key in result\<close>: a key of a \<open>dict\<close>, an element of a \<open>list\<close>, a substring of a \<open>str\<close>.\<close>

fun py_in :: "env \<Rightarrow> pystr \<Rightarrow> json \<Rightarrow> exn + bool" where
  "py_in E k (JDict kvs) = Inr (k \<in> set (map fst kvs))"
| "py_in E k (JList xs) = Inr (JStr k \<in> set xs)"
| "py_in E k (JStr s) = Inr (sublist k s)"
| "py_in E k v = Inl (TypeError (message E (NotIterable v)))"

text \<open>\<open>result[key]\<close> for a \<open>str\<close> key.\<close>

fun py_getitem :: "env \<Rightarrow> json \<Rightarrow> pystr \<Rightarrow> exn + json" where
  "py_getitem E (JDict kvs) k =
     (case map_of kvs k of Some v \<Rightarrow> Inr v | None \<Rightarrow> Inl (KeyError (message E (MissingKey k))))"
| "py_getitem E v k = Inl (TypeError (message E (NotSubscriptable v)))"

text \<open>Sequencing of steps that may raise.\<close>

definition and_then :: "exn + 'a \<Rightarrow> ('a \<Rightarrow> exn + 'b) \<Rightarrow> exn + 'b" where
  "and_then r f = (case r of Inl e \<Rightarrow> Inl e | Inr x \<Rightarrow> f x)"

section \<open>Evaluating one answer\<close>

text \<open>The prompt of \<open>evaluate_with_groq\<close> (main.py, lines 114 to 135).\<close>

definition build_prompt :: "pystr \<Rightarrow> pystr \<Rightarrow> pystr" where
  \<open>build_prompt answer question_context =
     (let context_prompt =
            (if question_context \<noteq> []
             then u ''\<newline>Interview Question: '' @ question_context @ u ''\<newline>''
             else [])
      in u ''You are an expert technical interviewer evaluating candidate responses.\<newline>'' @
         u ''\<newline>'' @ context_prompt @
         u ''\<newline>'' @
         u ''Candidate's Answer: '' @ answer @
         u ''\<newline>'' @
         u ''\<newline>'' @
         u ''Evaluate this answer and respond with ONLY a valid JSON object (no markdown, no explanation, no code fences):\<newline>'' @
         u ''{\<newline>'' @
         u ''  "score": <integer 1-5>,\<newline>'' @
         u ''  "summary": "<one concise sentence summarizing the answer>",\<newline>'' @
         u ''  "improvement": "<one specific, actionable suggestion for improvement>"\<newline>'' @
         u ''}\<newline>'' @
         u ''\<newline>'' @
         u ''Scoring Guide:\<newline>'' @
         u ''- 1: Poor - Incorrect, irrelevant, or demonstrates lack of understanding\<newline>'' @
         u ''- 2: Below Average - Partially correct but significant gaps in knowledge\<newline>'' @
         u ''- 3: Average - Correct but lacks depth or misses key points\<newline>'' @
         u ''- 4: Good - Solid answer with good understanding and detail\<newline>'' @
         u ''- 5: Excellent - Comprehensive, insightful, demonstrates deep expertise\<newline>'' @
         u ''\<newline>'' @
         u ''Be concise but constructive. Return ONLY the JSON object.'')\<close>

text \<open>The constructor of \<open>EvaluationResponse\<close>, whose \<open>score\<close> field is declared with \<open>ge=1, le=5\<close>.\<close>

definition make_EvaluationResponse :: "env \<Rightarrow> int \<Rightarrow> pystr \<Rightarrow> pystr \<Rightarrow> exn + EvaluationResponse" where
  "make_EvaluationResponse E n s i =
     (if 1 \<le> n \<and> n \<le> 5
      then Inr \<lparr>EvaluationResponse.score = n, summary = s, improvement = i\<rparr>
      else Inl (ValidationError (message E (ScoreOutOfRange n))))"

text \<open>
  The three \<open>except\<close> clauses at the end of \<open>evaluate_with_groq\<close> (lines 183 to 191), in
  their order. \<open>cleaned_text\<close> is \<open>None\<close> while the local variable is not yet bound: the
  first clause reads it, and reading it unbound raises inside the handler.
\<close>

definition handle :: "env \<Rightarrow> pystr option \<Rightarrow> exn \<Rightarrow> exn" where
  "handle E cleaned_text e =
     (if is_JSONDecodeError e then
        (case cleaned_text of
           None \<Rightarrow> UnboundLocalError (message E UnboundLocal)
         | Some c \<Rightarrow>
             HTTPException 500 (u ''Failed to parse JSON from model. Raw response: '' @ take 300 c))
      else if is_ValueError e then HTTPException 500 (exn_str E e)
      else HTTPException 500 (u ''Groq API error: '' @ exn_str E e))"

text \<open>Lines 163 to 171: the direct parse, then the brace span.\<close>

definition parse_json :: "env \<Rightarrow> pystr \<Rightarrow> exn + json" where
  "parse_json E cleaned_text =
     (case json_loads E cleaned_text of
        Inr result \<Rightarrow> Inr result
      | Inl e \<Rightarrow>
          if is_JSONDecodeError e then
            (case re_search_braces cleaned_text of
               Some g \<Rightarrow> json_loads E g
             | None \<Rightarrow>
                 Inl (ValueError (u ''Could not parse JSON from response: '' @ take 200 cleaned_text)))
          else Inl e)"

text \<open>The condition of line 174, with the short-circuit \<open>or\<close>.\<close>

definition missing_fields :: "env \<Rightarrow> json \<Rightarrow> exn + bool" where
  "missing_fields E result =
     and_then (py_in E (u ''score'') result) (\<lambda>b1.
       if \<not> b1 then Inr True
       else and_then (py_in E (u ''summary'') result) (\<lambda>b2.
         if \<not> b2 then Inr True
         else and_then (py_in E (u ''improvement'') result) (\<lambda>b3. Inr (\<not> b3))))"

text \<open>Lines 174 to 181: the required keys, the coercions, the constructor.\<close>

definition validate_and_build :: "env \<Rightarrow> json \<Rightarrow> exn + EvaluationResponse" where
  "validate_and_build E result =
     and_then (missing_fields E result) (\<lambda>missing.
       if missing then
         Inl (ValueError (u ''Missing required fields in response: '' @ py_str E result))
       else
         and_then (py_getitem E result (u ''score'')) (\<lambda>v1.
         and_then (py_int E v1) (\<lambda>n.
         and_then (py_getitem E result (u ''summary'')) (\<lambda>v2.
         and_then (py_getitem E result (u ''improvement'')) (\<lambda>v3.
           make_EvaluationResponse E n (py_str E v2) (py_str E v3))))))"

text \<open>
  Lines 157 to 191 for a model response with content \<open>content\<close>: the Response Extractor.
\<close>

definition extract_evaluation :: "env \<Rightarrow> pystr \<Rightarrow> exn + EvaluationResponse" where
  "extract_evaluation E content =
     (let response_text = strip content;
          cleaned_text = strip_markdown response_text
      in case and_then (parse_json E cleaned_text) (validate_and_build E) of
           Inr evaluation \<Rightarrow> Inr evaluation
         | Inl e \<Rightarrow> Inl (handle E (Some cleaned_text) e))"

text \<open>
  \<open>evaluate_with_groq\<close> (lines 100 to 191). \<open>calls\<close> is the list of prompts sent to the
  provider so far; the function returns it extended by the call it makes, if it makes one.
  \<open>Inl\<close> is the exception the function raises.
\<close>

definition evaluate_with_groq ::
  "env \<Rightarrow> pystr list \<Rightarrow> pystr \<Rightarrow> pystr \<Rightarrow> (exn + EvaluationResponse) \<times> pystr list" where
  "evaluate_with_groq E calls answer question_context =
     (if \<not> groq_available E then
        (Inl (HTTPException 500 (u ''Groq SDK not available: '' @ groq_import_error E)), calls)
      else
        let prompt = build_prompt answer question_context
        in ((case create E (length calls) prompt of
               Inl e \<Rightarrow> Inl (handle E None e)
             | Inr content \<Rightarrow> extract_evaluation E content),
            calls @ [prompt]))"

record AnswerRequest =
  candidate_says :: pystr
  question_context :: pystr

text \<open>\<open>evaluate_answer\<close> (lines 210 to 224).\<close>

definition evaluate_answer ::
  "env \<Rightarrow> pystr list \<Rightarrow> AnswerRequest \<Rightarrow> (exn + EvaluationResponse) \<times> pystr list" where
  "evaluate_answer E calls request =
     (if strip (candidate_says request) = [] then
        (Inl (HTTPException 400 (u ''Candidate answer cannot be empty'')), calls)
      else
        evaluate_with_groq E calls (candidate_says request) (AnswerRequest.question_context request))"

section \<open>Ranking a batch\<close>

record CandidateAnswer =
  candidate_id :: pystr
  answer :: pystr
  question_context :: pystr

record RankRequest =
  candidates :: "CandidateAnswer list"

text \<open>
  The dictionaries that \<open>rank_candidates\<close> collects have the five keys below;
  a \<open>RankedCandidate\<close> has the same fields and a rank.
\<close>

record evaluated =
  candidate_id :: pystr
  answer :: pystr
  score :: int
  summary :: pystr
  improvement :: pystr

record RankedCandidate = evaluated +
  rank :: int

record RankResponse =
  ranked_candidates :: "RankedCandidate list"

text \<open>The body of the loop of \<open>rank_candidates\<close> (lines 254 to 271) for one candidate.\<close>

definition evaluate_candidate :: "env \<Rightarrow> pystr list \<Rightarrow> CandidateAnswer \<Rightarrow> evaluated \<times> pystr list" where
  "evaluate_candidate E calls candidate =
     (case evaluate_with_groq E calls (CandidateAnswer.answer candidate)
             (CandidateAnswer.question_context candidate) of
        (Inr evaluation, calls') \<Rightarrow>
          (\<lparr>evaluated.candidate_id = CandidateAnswer.candidate_id candidate,
            answer = CandidateAnswer.answer candidate,
            score = EvaluationResponse.score evaluation,
            summary = EvaluationResponse.summary evaluation,
            improvement = EvaluationResponse.improvement evaluation\<rparr>, calls')
      | (Inl e, calls') \<Rightarrow>
          (\<lparr>evaluated.candidate_id = CandidateAnswer.candidate_id candidate,
            answer = CandidateAnswer.answer candidate,
            score = 0,
            summary = u ''Evaluation failed: '' @ exn_str E e,
            improvement = u ''Please retry evaluation''\<rparr>, calls'))"

text \<open>The loop (lines 251 to 271).\<close>

fun evaluate_candidates ::
  "env \<Rightarrow> pystr list \<Rightarrow> CandidateAnswer list \<Rightarrow> evaluated list \<times> pystr list" where
  "evaluate_candidates E calls [] = ([], calls)"
| "evaluate_candidates E calls (candidate # rest) =
     (let (x, calls') = evaluate_candidate E calls candidate;
          (xs, calls'') = evaluate_candidates E calls' rest
      in (x # xs, calls''))"

text \<open>
  Line 274, \<open>sort(key=lambda x: x["score"], reverse=True)\<close>: a stable sort with every
  comparison reversed, that is a stable ascending sort on the negated score.
\<close>

definition sort_by_score :: "evaluated list \<Rightarrow> evaluated list" where
  "sort_by_score xs = sort_key (\<lambda>x. - score x) xs"

text \<open>Lines 277 to 286: \<open>enumerate(evaluated_candidates, 1)\<close>.\<close>

definition add_ranks :: "evaluated list \<Rightarrow> RankedCandidate list" where
  "add_ranks xs =
     map (\<lambda>(idx, c).
            \<lparr>evaluated.candidate_id = candidate_id c, answer = answer c, score = score c,
             summary = summary c, improvement = improvement c, rank = int idx\<rparr>)
         (List.enumerate 1 xs)"

text \<open>Lines 251 to 288: what \<open>rank_candidates\<close> does once the list is known to be non-empty.\<close>

definition rank_batch ::
  "env \<Rightarrow> pystr list \<Rightarrow> CandidateAnswer list \<Rightarrow> RankedCandidate list \<times> pystr list" where
  "rank_batch E calls cs =
     (let (evaluated_candidates, calls') = evaluate_candidates E calls cs
      in (add_ranks (sort_by_score evaluated_candidates), calls'))"

text \<open>\<open>rank_candidates\<close> (lines 227 to 288).\<close>

definition rank_candidates ::
  "env \<Rightarrow> pystr list \<Rightarrow> RankRequest \<Rightarrow> (exn + RankResponse) \<times> pystr list" where
  "rank_candidates E calls request =
     (if candidates request = [] then
        (Inl (HTTPException 400 (u ''Candidates list cannot be empty'')), calls)
      else
        let (ranked, calls') = rank_batch E calls (candidates request)
        in (Inr \<lparr>ranked_candidates = ranked\<rparr>, calls'))"

section \<open>A reference instance of the libraries\<close>

text \<open>
  The theorems below hold for every \<open>env\<close>. To evaluate the program on concrete responses
  an instance is needed; this one follows CPython 3.11 (\<open>json\<close>, \<open>int\<close>, \<open>repr\<close>, the
  messages of the interpreter), pydantic 2 and Starlette. What it leaves out: the message
  and position of a \<open>JSONDecodeError\<close>, which no path of the source reads; decimal digits
  and printability of characters beyond U+00FF in \<open>int\<close> and \<open>repr\<close>; the digits Python
  prints for a \<open>float\<close> (the literal is printed instead); the interpreter's limits on
  recursion depth and on the number of digits of an integer literal.
\<close>

definition json_ws :: "nat \<Rightarrow> bool" where
  "json_ws c \<longleftrightarrow> c = 32 \<or> c = 9 \<or> c = 10 \<or> c = 13"

definition skip_ws :: "pystr \<Rightarrow> pystr" where
  "skip_ws t = dropWhile json_ws t"

definition is_digit :: "nat \<Rightarrow> bool" where
  "is_digit c \<longleftrightarrow> 48 \<le> c \<and> c \<le> 57"

definition hex_digit :: "nat \<Rightarrow> nat option" where
  "hex_digit c =
     (if 48 \<le> c \<and> c \<le> 57 then Some (c - 48)
      else if 97 \<le> c \<and> c \<le> 102 then Some (c - 87)
      else if 65 \<le> c \<and> c \<le> 70 then Some (c - 55)
      else None)"

text \<open>The four hexadecimal digits of a \<open>\uXXXX\<close> escape.\<close>

definition hex4 :: "pystr \<Rightarrow> nat option" where
  "hex4 t =
     (case map hex_digit (take 4 t) of
        [Some a, Some b, Some c, Some d] \<Rightarrow> Some (((a * 16 + b) * 16 + c) * 16 + d)
      | _ \<Rightarrow> None)"

definition escape_char :: "nat \<Rightarrow> nat option" where
  "escape_char e =
     (if e = 34 \<or> e = 92 \<or> e = 47 then Some e
      else if e = 98 then Some 8
      else if e = 102 then Some 12
      else if e = 110 then Some 10
      else if e = 114 then Some 13
      else if e = 116 then Some 9
      else None)"

definition cons_char :: "nat \<Rightarrow> (pystr \<times> pystr) option \<Rightarrow> (pystr \<times> pystr) option" where
  "cons_char c r = map_option (\<lambda>(s, rest). (c # s, rest)) r"

text \<open>
  \<open>scanstring\<close> in strict mode, after the opening quote: the decoded string and the text
  after the closing quote.
\<close>

fun scanstring :: "pystr \<Rightarrow> (pystr \<times> pystr) option" where
  "scanstring [] = None"
| "scanstring (c # r) =
     (if c = 34 then Some ([], r)
      else if c = 92 then
        (case r of
           [] \<Rightarrow> None
         | e # r1 \<Rightarrow>
             if e = 117 then
               (case hex4 r1 of
                  None \<Rightarrow> None
                | Some hi \<Rightarrow>
                    if 55296 \<le> hi \<and> hi \<le> 56319 \<and> prefix [92, 117] (drop 4 r1) then
                      (case hex4 (drop 6 r1) of
                         None \<Rightarrow> None
                       | Some lo \<Rightarrow>
                           if 56320 \<le> lo \<and> lo \<le> 57343
                           then cons_char (65536 + (hi - 55296) * 1024 + (lo - 56320))
                                  (scanstring (drop 10 r1))
                           else cons_char hi (scanstring (drop 4 r1)))
                    else cons_char hi (scanstring (drop 4 r1)))
             else
               (case escape_char e of
                  None \<Rightarrow> None
                | Some x \<Rightarrow> cons_char x (scanstring r1)))
      else if c < 32 then None
      else cons_char c (scanstring r))"

definition digits_value :: "pystr \<Rightarrow> int" where
  "digits_value ds = foldl (\<lambda>acc d. acc * 10 + (int d - 48)) 0 ds"

text \<open>
  The number pattern of the scanner,
  \<open>(-?(?:0|[1-9][0-9]*))(\.[0-9]+)?([eE][-+]?[0-9]+)?\<close>, anchored at \<open>t\<close>.
\<close>

definition scan_number :: "pystr \<Rightarrow> (json \<times> pystr) option" where
  "scan_number t =
     (let sign = (if prefix [45] t then [45] else []);
          t1 = drop (length sign) t
      in case t1 of
           [] \<Rightarrow> None
         | d # r \<Rightarrow>
             if \<not> is_digit d then None
             else
               let ipart = (if d = 48 then [d] else d # takeWhile is_digit r);
                   t2 = drop (length ipart) t1;
                   frac = (case t2 of
                             [] \<Rightarrow> []
                           | p # r2 \<Rightarrow>
                               if p = 46 \<and> takeWhile is_digit r2 \<noteq> []
                               then p # takeWhile is_digit r2 else []);
                   t3 = drop (length frac) t2;
                   ex = (case t3 of
                           [] \<Rightarrow> []
                         | e # r3 \<Rightarrow>
                             if e = 101 \<or> e = 69 then
                               (let sg = (if prefix [45] r3 \<or> prefix [43] r3 then take 1 r3 else []);
                                    ds = takeWhile is_digit (drop (length sg) r3)
                                in if ds \<noteq> [] then e # sg @ ds else [])
                             else []);
                   t4 = drop (length ex) t3
               in if frac \<noteq> [] \<or> ex \<noteq> []
                  then Some (JFloat (sign @ ipart @ frac @ ex), t4)
                  else Some (JInt ((if sign = [] then 1 else - 1) * digits_value ipart), t4))"

text \<open>\<open>dict(pairs)\<close>: a later pair with the same key replaces the value of the earlier one.\<close>

fun dict_update :: "(pystr \<times> json) list \<Rightarrow> pystr \<Rightarrow> json \<Rightarrow> (pystr \<times> json) list" where
  "dict_update [] k v = [(k, v)]"
| "dict_update ((k', v') # kvs) k v =
     (if k' = k then (k, v) # kvs else (k', v') # dict_update kvs k v)"

definition dict_of_pairs :: "(pystr \<times> json) list \<Rightarrow> (pystr \<times> json) list" where
  "dict_of_pairs ps = foldl (\<lambda>d (k, v). dict_update d k v) [] ps"

text \<open>
  The scanner. The first argument bounds the depth of the calls; it decreases only where
  at least one character has been consumed, so the length of the text is always enough.
  \<open>scan_pairs\<close> starts after the opening quote of a key, \<open>scan_items\<close> at a value.
\<close>

fun scan_once :: "nat \<Rightarrow> pystr \<Rightarrow> (json \<times> pystr) option"
  and scan_pairs :: "nat \<Rightarrow> pystr \<Rightarrow> ((pystr \<times> json) list \<times> pystr) option"
  and scan_items :: "nat \<Rightarrow> pystr \<Rightarrow> (json list \<times> pystr) option" where
  "scan_once 0 t = None"
| "scan_once (Suc n) t =
     (case t of
        [] \<Rightarrow> None
      | c # r \<Rightarrow>
          if c = 34 then map_option (\<lambda>(s, rest). (JStr s, rest)) (scanstring r)
          else if c = 123 then
            (case skip_ws r of
               [] \<Rightarrow> None
             | d # r1 \<Rightarrow>
                 if d = 125 then Some (JDict [], r1)
                 else if d = 34
                 then map_option (\<lambda>(ps, rest). (JDict (dict_of_pairs ps), rest)) (scan_pairs n r1)
                 else None)
          else if c = 91 then
            (case skip_ws r of
               [] \<Rightarrow> None
             | d # r1 \<Rightarrow>
                 if d = 93 then Some (JList [], r1)
                 else map_option (\<lambda>(xs, rest). (JList xs, rest)) (scan_items n (d # r1)))
          else if prefix (u ''null'') t then Some (JNull, drop 4 t)
          else if prefix (u ''true'') t then Some (JBool True, drop 4 t)
          else if prefix (u ''false'') t then Some (JBool False, drop 5 t)
          else
            (case scan_number t of
               Some res \<Rightarrow> Some res
             | None \<Rightarrow>
                 if prefix (u ''NaN'') t then Some (JFloat (u ''NaN''), drop 3 t)
                 else if prefix (u ''Infinity'') t then Some (JFloat (u ''Infinity''), drop 8 t)
                 else if prefix (u ''-Infinity'') t then Some (JFloat (u ''-Infinity''), drop 9 t)
                 else None))"
| "scan_pairs 0 t = None"
| "scan_pairs (Suc n) t =
     (case scanstring t of
        None \<Rightarrow> None
      | Some (key, r) \<Rightarrow>
          (case skip_ws r of
             [] \<Rightarrow> None
           | c # r1 \<Rightarrow>
               if c \<noteq> 58 then None
               else
                 (case scan_once n (skip_ws r1) of
                    None \<Rightarrow> None
                  | Some (v, r2) \<Rightarrow>
                      (case skip_ws r2 of
                         [] \<Rightarrow> None
                       | d # r3 \<Rightarrow>
                           if d = 125 then Some ([(key, v)], r3)
                           else if d = 44 then
                             (case skip_ws r3 of
                                [] \<Rightarrow> None
                              | q # r4 \<Rightarrow>
                                  if q = 34
                                  then map_option (\<lambda>(ps, rest). ((key, v) # ps, rest)) (scan_pairs n r4)
                                  else None)
                           else None))))"
| "scan_items 0 t = None"
| "scan_items (Suc n) t =
     (case scan_once (Suc n) t of
        None \<Rightarrow> None
      | Some (v, r) \<Rightarrow>
          (case skip_ws r of
             [] \<Rightarrow> None
           | d # r1 \<Rightarrow>
               if d = 93 then Some ([v], r1)
               else if d = 44
               then map_option (\<lambda>(xs, rest). (v # xs, rest)) (scan_items n (skip_ws r1))
               else None))"

text \<open>
  \<open>json.loads\<close> on a \<open>str\<close>: one value between optional whitespace, nothing after it.
  Every failure is a \<open>JSONDecodeError\<close>.
\<close>

definition ref_json_loads :: "pystr \<Rightarrow> exn + json" where
  "ref_json_loads s =
     (case scan_once (Suc (length s)) (skip_ws s) of
        None \<Rightarrow> Inl (JSONDecodeError [])
      | Some (v, rest) \<Rightarrow> if skip_ws rest = [] then Inr v else Inl (JSONDecodeError []))"

text \<open>
  \<open>int(s)\<close> for a \<open>str\<close>: optional whitespace, an optional sign, digits with single
  underscores between them, optional whitespace. The whitespace of \<open>int\<close> is that of
  \<open>strip\<close> without the four separators U+001C to U+001F.
\<close>

definition int_space :: "nat \<Rightarrow> bool" where
  "int_space c \<longleftrightarrow> is_space c \<and> \<not> (28 \<le> c \<and> c \<le> 31)"

fun int_body :: "pystr \<Rightarrow> bool" where
  "int_body [] = False"
| "int_body [d] = is_digit d"
| "int_body (d # c # r) = (is_digit d \<and> (if c = 95 then int_body r else int_body (c # r)))"

definition int_of_str :: "pystr \<Rightarrow> int option" where
  "int_of_str s =
     (let t = rev (dropWhile int_space (rev (dropWhile int_space s)));
          body = (if prefix [45] t \<or> prefix [43] t then drop 1 t else t)
      in if int_body body
         then Some ((if prefix [45] t then - 1 else 1) * digits_value (filter is_digit body))
         else None)"

fun bit_length :: "nat \<Rightarrow> nat" where
  "bit_length n = (if n = 0 then 0 else Suc (bit_length (n div 2)))"

text \<open>
  \<open>int(float(x))\<close> for the positive decimal \<open>x = m * 10 ^ e\<close>: \<open>x\<close> is rounded to the nearest
  binary64 value, ties to even, and truncated; \<open>None\<close> when it rounds to infinity.
  \<open>k\<close> is the binary exponent of \<open>x\<close>, \<open>M\<close> its rounded 53-bit significand.
\<close>

definition binary64_trunc :: "nat \<Rightarrow> int \<Rightarrow> nat option" where
  "binary64_trunc m e =
     (if m = 0 then Some 0
      else
        let N = (if 0 \<le> e then m * 10 ^ nat e else m);
            D = (if 0 \<le> e then 1 else 10 ^ nat (- e));
            k0 = int (bit_length N) - int (bit_length D);
            k = (if (if 0 \<le> k0 then D * 2 ^ nat k0 \<le> N else D \<le> N * 2 ^ nat (- k0))
                 then k0 else k0 - 1);
            A = (if k \<le> 52 then N * 2 ^ nat (52 - k) else N);
            B = (if k \<le> 52 then D else D * 2 ^ nat (k - 52));
            q = A div B;
            r = A mod B;
            M = (if B < 2 * r \<or> (2 * r = B \<and> odd q) then q + 1 else q)
        in if 52 \<le> k
           then (if 2 ^ 1024 \<le> M * 2 ^ nat (k - 52) then None else Some (M * 2 ^ nat (k - 52)))
           else Some (M div 2 ^ nat (52 - k)))"

text \<open>Sign, digits and decimal exponent of a number literal with a fraction or an exponent.\<close>

definition float_literal :: "pystr \<Rightarrow> bool \<times> nat \<times> int" where
  "float_literal lit =
     (let neg = prefix [45] lit;
          t1 = (if neg then drop 1 lit else lit);
          ipart = takeWhile is_digit t1;
          t2 = dropWhile is_digit t1;
          frac = (if prefix [46] t2 then takeWhile is_digit (drop 1 t2) else []);
          t3 = (if prefix [46] t2 then dropWhile is_digit (drop 1 t2) else t2);
          ex = (if t3 = [] then 0
                else if prefix [45] (drop 1 t3) then - digits_value (drop 2 t3)
                else if prefix [43] (drop 1 t3) then digits_value (drop 2 t3)
                else digits_value (drop 1 t3))
      in (neg, nat (digits_value (ipart @ frac)), ex - int (length frac)))"

definition type_name :: "json \<Rightarrow> pystr" where
  "type_name v =
     (case v of
        JNull \<Rightarrow> u ''NoneType''
      | JBool b \<Rightarrow> u ''bool''
      | JInt i \<Rightarrow> u ''int''
      | JFloat lit \<Rightarrow> u ''float''
      | JStr s \<Rightarrow> u ''str''
      | JList xs \<Rightarrow> u ''list''
      | JDict kvs \<Rightarrow> u ''dict'')"

definition hex2 :: "nat \<Rightarrow> pystr" where
  "hex2 c = map (\<lambda>d. if d < 10 then 48 + d else 87 + d) [c div 16, c mod 16]"

text \<open>\<open>repr\<close> of a \<open>str\<close> with quote \<open>q\<close>, character by character.\<close>

definition repr_char :: "nat \<Rightarrow> nat \<Rightarrow> pystr" where
  "repr_char q c =
     (if c = q \<or> c = 92 then [92, c]
      else if c = 9 then [92, 116]
      else if c = 10 then [92, 110]
      else if c = 13 then [92, 114]
      else if c < 32 \<or> (127 \<le> c \<and> c \<le> 160) \<or> c = 173 then [92, 120] @ hex2 c
      else [c])"

definition repr_str :: "pystr \<Rightarrow> pystr" where
  "repr_str s =
     (let q = (if 39 \<in> set s \<and> 34 \<notin> set s then 34 else 39)
      in q # concat (map (repr_char q) s) @ [q])"

fun nat_digits :: "nat \<Rightarrow> pystr" where
  "nat_digits n = (if n < 10 then [48 + n] else nat_digits (n div 10) @ [48 + n mod 10])"

definition int_repr :: "int \<Rightarrow> pystr" where
  "int_repr i = (if i < 0 then 45 # nat_digits (nat (- i)) else nat_digits (nat i))"

fun join :: "pystr \<Rightarrow> pystr list \<Rightarrow> pystr" where
  "join sep [] = []"
| "join sep [x] = x"
| "join sep (x # y # ys) = x @ sep @ join sep (y # ys)"

fun ref_repr :: "json \<Rightarrow> pystr" where
  "ref_repr JNull = u ''None''"
| "ref_repr (JBool b) = (if b then u ''True'' else u ''False'')"
| "ref_repr (JInt i) = int_repr i"
| "ref_repr (JFloat lit) =
     (if lit = u ''NaN'' then u ''nan''
      else if lit = u ''Infinity'' then u ''inf''
      else if lit = u ''-Infinity'' then u ''-inf''
      else lit)"
| "ref_repr (JStr s) = repr_str s"
| "ref_repr (JList xs) = u ''['' @ join (u '', '') (map ref_repr xs) @ u '']''"
| "ref_repr (JDict kvs) =
     u ''{'' @ join (u '', '') (map (\<lambda>(k, v). repr_str k @ u '': '' @ ref_repr v) kvs) @ u ''}''"

definition ref_int :: "json \<Rightarrow> exn + int" where
  "ref_int v =
     (case v of
        JInt i \<Rightarrow> Inr i
      | JBool b \<Rightarrow> Inr (if b then 1 else 0)
      | JStr s \<Rightarrow>
          (case int_of_str s of
             Some i \<Rightarrow> Inr i
           | None \<Rightarrow> Inl (ValueError (u ''invalid literal for int() with base 10: '' @ repr_str s)))
      | JFloat lit \<Rightarrow>
          if lit = u ''NaN'' then Inl (ValueError (u ''cannot convert float NaN to integer''))
          else if lit = u ''Infinity'' \<or> lit = u ''-Infinity''
          then Inl (OverflowError (u ''cannot convert float infinity to integer''))
          else
            (case float_literal lit of
               (neg, m, e) \<Rightarrow>
                 (case binary64_trunc m e of
                    None \<Rightarrow> Inl (OverflowError (u ''cannot convert float infinity to integer''))
                  | Some n \<Rightarrow> Inr (if neg then - int n else int n)))
      | _ \<Rightarrow>
          Inl (TypeError (u ''int() argument must be a string, a bytes-like object or a real number, not '' @
                          [39] @ type_name v @ [39])))"

definition ref_message :: "failure \<Rightarrow> pystr" where
  "ref_message f =
     (case f of
        NotIterable v \<Rightarrow> u ''argument of type '' @ [39] @ type_name v @ [39] @ u '' is not iterable''
      | NotSubscriptable v \<Rightarrow>
          (case v of
             JList xs \<Rightarrow> u ''list indices must be integers or slices, not str''
           | JStr s \<Rightarrow> u ''string indices must be integers, not '' @ [39] @ u ''str'' @ [39]
           | _ \<Rightarrow> [39] @ type_name v @ [39] @ u '' object is not subscriptable'')
      | MissingKey k \<Rightarrow> repr_str k
      | ScoreOutOfRange n \<Rightarrow>
          u ''1 validation error for EvaluationResponse\<newline>score\<newline>  Input should be '' @
          (if n < 1 then u ''greater than or equal to 1 [type=greater_than_equal''
           else u ''less than or equal to 5 [type=less_than_equal'') @
          u '', input_value='' @ int_repr n @ u '', input_type=int]\<newline>'' @
          u ''    For further information visit https://errors.pydantic.dev/2.11/v/'' @
          (if n < 1 then u ''greater_than_equal'' else u ''less_than_equal'')
      | UnboundLocal \<Rightarrow>
          u ''cannot access local variable '' @ [39] @ u ''cleaned_text'' @ [39] @
          u '' where it is not associated with a value'')"

definition ref_http_str :: "nat \<Rightarrow> pystr \<Rightarrow> pystr" where
  "ref_http_str code detail = nat_digits code @ u '': '' @ detail"

definition reference_env :: "(nat \<Rightarrow> pystr \<Rightarrow> exn + pystr) \<Rightarrow> env" where
  "reference_env provider =
     \<lparr>groq_available = True, groq_import_error = [], create = provider,
      json_loads = ref_json_loads, py_int = ref_int, py_repr = ref_repr,
      message = ref_message, http_str = ref_http_str\<rparr>"

definition canned :: "(exn + pystr) list \<Rightarrow> nat \<Rightarrow> pystr \<Rightarrow> exn + pystr" where
  "canned rs n prompt =
     (if n < length rs then rs ! n else Inl (OtherException (u ''Connection error.'')))"

section \<open>Example requests and responses\<close>

definition candidate :: "string \<Rightarrow> string \<Rightarrow> CandidateAnswer" where
  "candidate cid ans =
     \<lparr>CandidateAnswer.candidate_id = u cid, answer = u ans, question_context = u ''Why use React?''\<rparr>"

definition four_candidates :: "CandidateAnswer list" where
  "four_candidates =
     [candidate ''C001'' ''React is component-based'',
      candidate ''C002'' ''React provides reusability and a virtual DOM'',
      candidate ''C003'' ''Components, one-way data flow, a large ecosystem'',
      candidate ''C004'' ''I do not know much about React'']"

text \<open>A model response that is a bare JSON object with the given score literal.\<close>

definition reply :: "string \<Rightarrow> exn + pystr" where
  \<open>reply k = Inr (u ''{"score": '' @ u k @ u '', "summary": "ok", "improvement": "more"}'')\<close>

text \<open>Four calls that are answered with the scores 2, 5, 5 and 1.\<close>

definition scores_2551 :: env where
  "scores_2551 = reference_env (canned [reply ''2'', reply ''5'', reply ''5'', reply ''1''])"

text \<open>Four calls of which the second fails at the provider and the third returns prose.\<close>

definition two_failures :: env where
  "two_failures =
     reference_env (canned [reply ''4'', Inl (OtherException (u ''Connection error.'')),
                            Inr (u ''Sorry, I cannot score this.''), reply ''3''])"

section \<open>Auxiliary notions\<close>

text \<open>A text with no whitespace at either end.\<close>

definition stripped :: "pystr \<Rightarrow> bool" where
  "stripped t \<longleftrightarrow> t = [] \<or> (\<not> is_space (hd t) \<and> \<not> is_space (last t))"

text \<open>A text of whitespace only.\<close>

definition blank :: "pystr \<Rightarrow> bool" where
  "blank w \<longleftrightarrow> (\<forall>c \<in> set w. is_space c)"

section \<open>Evaluation of the text functions on literals\<close>

lemmas text_eval = strip_markdown_def strip_def lstrip_def rstrip_def u_def is_space_def
  json_kw_def fence_def rx_fence_at_def rx_tag_group_def rx_ws_group_def rx_close_def
  greedy_ws_def ws_run_def rx_braces_at_def

lemmas json_eval = ref_json_loads_def skip_ws_def json_ws_def is_digit_def scan_number_def
  digits_value_def dict_of_pairs_def cons_char_def escape_char_def hex4_def hex_digit_def u_def

lemmas extract_eval = extract_evaluation_def parse_json_def validate_and_build_def
  missing_fields_def and_then_def make_EvaluationResponse_def handle_def py_str_def
  reference_env_def ref_int_def int_of_str_def int_space_def

lemmas rank_eval = rank_candidates_def rank_batch_def evaluate_candidate_def
  evaluate_with_groq_def canned_def reply_def candidate_def four_candidates_def
  sort_by_score_def add_ranks_def enumerate_eq_zip ref_http_str_def

section \<open>Properties of stripping\<close>

lemma lstrip_hd: "lstrip t \<noteq> [] \<Longrightarrow> \<not> is_space (hd (lstrip t))"
  unfolding lstrip_def by (rule hd_dropWhile)

lemma rstrip_last: "rstrip t \<noteq> [] \<Longrightarrow> \<not> is_space (last (rstrip t))"
  unfolding rstrip_def by (simp add: last_rev hd_dropWhile)

lemma rstrip_Cons: "\<not> is_space c \<Longrightarrow> rstrip (c # cs) = c # rstrip cs"
  unfolding rstrip_def by (simp add: dropWhile_append)

lemma stripped_strip: "stripped (strip t)"
proof (cases "lstrip t")
  case Nil
  then show ?thesis by (simp add: stripped_def strip_def rstrip_def)
next
  case (Cons c cs)
  then have c: "\<not> is_space c" using lstrip_hd [of t] by simp
  have "strip t = c # rstrip cs" by (simp add: strip_def Cons rstrip_Cons c)
  moreover have "\<not> is_space (last (strip t))"
    using rstrip_last [of "lstrip t"] Cons c by (simp add: strip_def rstrip_Cons)
  ultimately show ?thesis by (simp add: stripped_def c)
qed

lemma rstrip_id: "t = [] \<or> \<not> is_space (last t) \<Longrightarrow> rstrip t = t"
  unfolding rstrip_def by (cases t rule: rev_cases) auto

lemma lstrip_id: "t = [] \<or> \<not> is_space (hd t) \<Longrightarrow> lstrip t = t"
  unfolding lstrip_def by (cases t) auto

lemma strip_id: "stripped t \<Longrightarrow> strip t = t"
  unfolding stripped_def strip_def by (auto simp: lstrip_id rstrip_id)

lemma strip_strip: "strip (strip t) = strip t"
  by (rule strip_id) (rule stripped_strip)

lemma stripped_strip_markdown: "stripped (strip_markdown t)"
  unfolding strip_markdown_def Let_def
  by (auto simp: stripped_strip split: option.splits)

lemma strip_markdown_fixed:
  assumes "\<not> prefix json_kw (strip_markdown t)"
    and "\<not> prefix fence (strip_markdown t) \<or> re_search_fence (strip_markdown t) = None"
  shows "strip_markdown (strip_markdown t) = strip_markdown t"
proof -
  have "strip (strip_markdown t) = strip_markdown t"
    by (rule strip_id) (rule stripped_strip_markdown)
  then show ?thesis
    using assms by (subst strip_markdown_def) (auto simp: Let_def)
qed

lemma length_rstrip: "length (rstrip t) \<le> length t"
  unfolding rstrip_def by (simp add: length_dropWhile_le [of is_space "rev t", simplified])

lemma length_lstrip: "length (lstrip t) \<le> length t"
  unfolding lstrip_def by (rule length_dropWhile_le)

lemma length_strip: "length (strip t) \<le> length t"
  unfolding strip_def using length_rstrip [of "lstrip t"] length_lstrip [of t] by simp

lemma first_some_mem: "first_some xs = Some g \<Longrightarrow> Some g \<in> set xs"
  by (induction xs rule: first_some.induct) auto

lemma rx_group_length: "rx_group t = Some g \<Longrightarrow> length g \<le> length t"
  by (induction t arbitrary: g) (auto split: if_splits)

lemma rx_ws_group_length:
  assumes "rx_ws_group t = Some g"
  shows "length g \<le> length t"
proof -
  from assms obtain k where "rx_group (drop k t) = Some g"
    unfolding rx_ws_group_def by (auto dest!: first_some_mem)
  from rx_group_length [OF this] show ?thesis by simp
qed

lemma rx_tag_group_length:
  assumes "rx_tag_group t = Some g"
  shows "length g \<le> length t"
proof -
  from assms have "rx_ws_group (drop 4 t) = Some g \<or> rx_ws_group t = Some g"
    unfolding rx_tag_group_def by (auto dest!: first_some_mem split: if_splits)
  then show ?thesis
    using rx_ws_group_length [of "drop 4 t" g] rx_ws_group_length [of t g] by auto
qed

lemma rx_fence_at_length: "rx_fence_at t = Some g \<Longrightarrow> length g + 3 \<le> length t"
proof -
  assume a: "rx_fence_at t = Some g"
  then have p: "prefix fence t" and r: "rx_tag_group (drop 3 t) = Some g"
    by (auto simp: rx_fence_at_def split: if_splits)
  have "length fence = 3" by (simp add: fence_def u_def)
  with p have "3 \<le> length t" by (metis prefix_length_le)
  with rx_tag_group_length [OF r] show ?thesis by simp
qed

lemma re_search_fence_length: "re_search_fence t = Some g \<Longrightarrow> length g + 3 \<le> length t"
proof (induction t)
  case Nil
  then show ?case using rx_fence_at_length [of "[]" g] by simp
next
  case (Cons c cs)
  then show ?case
    using rx_fence_at_length [of "c # cs" g] by (auto split: option.splits)
qed

lemma fence_not_json: "prefix fence t \<Longrightarrow> \<not> prefix json_kw t"
  by (cases t) (auto simp: fence_def json_kw_def u_def)

lemma strip_markdown_shorter:
  assumes s: "strip x = x"
    and c: "prefix json_kw x \<or> (prefix fence x \<and> re_search_fence x \<noteq> None)"
  shows "length (strip_markdown x) < length x"
proof -
  from c show ?thesis
  proof
    assume j: "prefix json_kw x"
    then have nf: "\<not> prefix fence x" using fence_not_json by blast
    have "length json_kw = 4" by (simp add: json_kw_def u_def)
    with j have l: "4 \<le> length x" by (metis prefix_length_le)
    have "strip_markdown x = strip (drop 4 x)"
      by (simp add: strip_markdown_def s nf j)
    then show ?thesis using length_strip [of "drop 4 x"] l by simp
  next
    assume "prefix fence x \<and> re_search_fence x \<noteq> None"
    then obtain g where f: "prefix fence x" and g: "re_search_fence x = Some g" by auto
    have l: "length g + 3 \<le> length x" by (rule re_search_fence_length [OF g])
    have "strip_markdown x = (if prefix json_kw (strip g) then strip (drop 4 (strip g)) else strip g)"
      by (simp add: strip_markdown_def s f g)
    then show ?thesis
      using length_strip [of g] length_strip [of "drop 4 (strip g)"] l by (auto split: if_splits)
  qed
qed

text \<open>
  C4 (amended). A second application of \<open>_strip_markdown\<close> changes nothing exactly when the
  first result begins neither with the \<open>json\<close> token nor with a code fence that the fence
  pattern matches; in particular a text that is its own image stays fixed. The function
  removes one fence and one tag per call, so a result that still begins with one of them
  is stripped further by the next call.
\<close>

theorem strip_markdown_idempotent_iff:
  "(strip_markdown (strip_markdown t) = strip_markdown t \<longleftrightarrow>
      \<not> prefix json_kw (strip_markdown t) \<and>
      (\<not> prefix fence (strip_markdown t) \<or> re_search_fence (strip_markdown t) = None)) \<and>
   (strip_markdown t = t \<longrightarrow> strip_markdown (strip_markdown t) = t)"
proof -
  have s: "strip (strip_markdown t) = strip_markdown t"
    by (rule strip_id) (rule stripped_strip_markdown)
  have "strip_markdown (strip_markdown t) \<noteq> strip_markdown t"
    if "prefix json_kw (strip_markdown t) \<or>
        (prefix fence (strip_markdown t) \<and> re_search_fence (strip_markdown t) \<noteq> None)"
    using strip_markdown_shorter [OF s that] by auto
  then have "strip_markdown (strip_markdown t) = strip_markdown t \<Longrightarrow>
      \<not> prefix json_kw (strip_markdown t) \<and>
      (\<not> prefix fence (strip_markdown t) \<or> re_search_fence (strip_markdown t) = None)"
    by blast
  then show ?thesis using strip_markdown_fixed [of t] by (intro conjI iffI impI) simp_all
qed

theorem strip_markdown_idempotent_iff_witness:
  "strip_markdown (strip_markdown (u ''```json {x} ```'')) = strip_markdown (u ''```json {x} ```'') \<and>
   strip_markdown (u ''```json {x} ```'') = u ''{x}'' \<and>
   \<not> prefix json_kw (u ''{x}'') \<and> \<not> prefix fence (u ''{x}'') \<and>
   strip_markdown (u ''{x}'') = u ''{x}''"
proof -
  have a: "strip_markdown (u ''```json {x} ```'') = u ''{x}''" by (simp add: text_eval)
  have b: "\<not> prefix json_kw (u ''{x}'')" by (simp add: text_eval)
  have c: "\<not> prefix fence (u ''{x}'')" by (simp add: text_eval)
  have d: "strip_markdown (u ''{x}'') = u ''{x}''" by (simp add: text_eval)
  show ?thesis
    using strip_markdown_idempotent_iff [of "u ''```json {x} ```''"] a b c d by simp
qed

text \<open>
  C4 as stated fails: after the leading \<open>json\<close> token is removed the text begins with a
  fence, which only a second application removes.
\<close>

theorem strip_markdown_not_idempotent:
  "strip_markdown (strip_markdown (u ''json ```{}```'')) \<noteq> strip_markdown (u ''json ```{}```'')"
  by (simp add: text_eval)


section \<open>The batch\<close>

lemma evaluate_candidates_length: "length (fst (evaluate_candidates E calls cs)) = length cs"
  by (induction cs arbitrary: calls) (simp_all add: Let_def split_beta)

lemma evaluate_candidates_append:
  "evaluate_candidates E calls (cs @ ds) =
     (let (xs, calls') = evaluate_candidates E calls cs;
          (ys, calls'') = evaluate_candidates E calls' ds
      in (xs @ ys, calls''))"
  by (induction cs arbitrary: calls) (simp_all add: Let_def split_beta)

lemma evaluate_candidates_nth:
  assumes "i < length cs"
  shows "fst (evaluate_candidates E calls cs) ! i =
         fst (evaluate_candidate E (snd (evaluate_candidates E calls (take i cs))) (cs ! i))"
proof -
  have cs: "cs = take i cs @ (cs ! i) # drop (Suc i) cs"
    using assms by (simp add: id_take_nth_drop)
  have l: "length (fst (evaluate_candidates E calls (take i cs))) = i"
    using assms by (simp add: evaluate_candidates_length)
  have "fst (evaluate_candidates E calls (take i cs @ (cs ! i) # drop (Suc i) cs)) ! i =
        fst (evaluate_candidate E (snd (evaluate_candidates E calls (take i cs))) (cs ! i))"
    using l by (simp add: evaluate_candidates_append Let_def split_beta nth_append)
  with cs show ?thesis by simp
qed

lemma evaluate_candidate_fields:
  "candidate_id (fst (evaluate_candidate E calls c)) = CandidateAnswer.candidate_id c \<and>
   answer (fst (evaluate_candidate E calls c)) = CandidateAnswer.answer c"
  by (auto simp: evaluate_candidate_def split: prod.splits sum.splits)

lemma evaluate_candidate_failed:
  assumes "fst (evaluate_with_groq E calls (CandidateAnswer.answer c) (CandidateAnswer.question_context c)) = Inl e"
  shows "fst (evaluate_candidate E calls c) =
           \<lparr>evaluated.candidate_id = CandidateAnswer.candidate_id c,
            answer = CandidateAnswer.answer c, score = 0,
            summary = u ''Evaluation failed: '' @ exn_str E e,
            improvement = u ''Please retry evaluation''\<rparr>"
  using assms by (auto simp: evaluate_candidate_def split: prod.splits sum.splits)

lemma set_sort_by_score: "set (sort_by_score xs) = set xs"
  by (simp add: sort_by_score_def)

lemma length_sort_by_score: "length (sort_by_score xs) = length xs"
  by (simp add: sort_by_score_def)

lemma length_add_ranks: "length (add_ranks xs) = length xs"
  by (simp add: add_ranks_def)

lemma add_ranks_nth:
  assumes "i < length xs"
  shows "add_ranks xs ! i =
           \<lparr>evaluated.candidate_id = candidate_id (xs ! i), answer = answer (xs ! i),
            score = score (xs ! i), summary = summary (xs ! i),
            improvement = improvement (xs ! i), rank = int (Suc i)\<rparr>"
  using assms by (simp add: add_ranks_def nth_enumerate_eq)

lemma map_rank_add_ranks: "map rank (add_ranks xs) = map int [1..<Suc (length xs)]"
  by (rule nth_equalityI) (auto simp: length_add_ranks add_ranks_nth nth_upt simp del: upt_Suc)

lemma truncate_add_ranks: "map evaluated.truncate (add_ranks xs) = xs"
  by (rule nth_equalityI) (auto simp: length_add_ranks add_ranks_nth evaluated.truncate_def)

lemma sorted_sort_by_score: "sorted_wrt (\<lambda>x y. score y \<le> score x) (sort_by_score xs)"
proof -
  have "sorted (map (\<lambda>x. - score x) (sort_by_score xs))"
    unfolding sort_by_score_def by (rule sorted_sort_key)
  then show ?thesis by (simp add: sorted_map)
qed

lemma stable_sort_by_score:
  "filter (\<lambda>x. score x = k) (sort_by_score xs) = filter (\<lambda>x. score x = k) xs"
  using sort_key_stable [of "\<lambda>x. - score x" "- k" xs] by (simp add: sort_by_score_def)


section \<open>The score of an evaluation\<close>

lemma make_EvaluationResponse_range:
  "make_EvaluationResponse E n s i = Inr ev \<Longrightarrow>
     1 \<le> EvaluationResponse.score ev \<and> EvaluationResponse.score ev \<le> 5"
  by (auto simp: make_EvaluationResponse_def split: if_splits)

lemma and_then_Inr: "and_then r f = Inr y \<longleftrightarrow> (\<exists>x. r = Inr x \<and> f x = Inr y)"
  by (cases r) (simp_all add: and_then_def)

lemma validate_and_build_range:
  "validate_and_build E result = Inr ev \<Longrightarrow>
     1 \<le> EvaluationResponse.score ev \<and> EvaluationResponse.score ev \<le> 5"
  unfolding validate_and_build_def
  by (auto simp: and_then_Inr dest: make_EvaluationResponse_range split: if_splits)

lemma extract_evaluation_range:
  "extract_evaluation E content = Inr ev \<Longrightarrow>
     1 \<le> EvaluationResponse.score ev \<and> EvaluationResponse.score ev \<le> 5"
  unfolding extract_evaluation_def Let_def
  by (auto simp: and_then_Inr dest: validate_and_build_range split: sum.splits)

lemma evaluate_with_groq_Inr:
  assumes "fst (evaluate_with_groq E calls a q) = Inr ev"
  shows "\<exists>content. create E (length calls) (build_prompt a q) = Inr content \<and>
                   extract_evaluation E content = Inr ev"
  using assms by (auto simp: evaluate_with_groq_def Let_def split: if_splits sum.splits)

lemma evaluate_with_groq_range:
  assumes "fst (evaluate_with_groq E calls a q) = Inr ev"
  shows "1 \<le> EvaluationResponse.score ev \<and> EvaluationResponse.score ev \<le> 5"
  using evaluate_with_groq_Inr [OF assms] extract_evaluation_range by blast

lemma evaluate_with_groq_calls:
  "snd (evaluate_with_groq E calls a q) =
     (if groq_available E then calls @ [build_prompt a q] else calls)"
  by (simp add: evaluate_with_groq_def Let_def)

lemma evaluate_candidate_score:
  "score (fst (evaluate_candidate E calls c)) =
     (case fst (evaluate_with_groq E calls (CandidateAnswer.answer c)
                  (CandidateAnswer.question_context c)) of
        Inl e \<Rightarrow> 0
      | Inr ev \<Rightarrow> EvaluationResponse.score ev)"
  by (auto simp: evaluate_candidate_def split: prod.splits sum.splits)

lemma rank_candidates_nonempty:
  assumes "candidates request \<noteq> []"
  shows "rank_candidates E calls request =
           (Inr \<lparr>ranked_candidates =
                   add_ranks (sort_by_score (fst (evaluate_candidates E calls (candidates request))))\<rparr>,
            snd (evaluate_candidates E calls (candidates request)))"
  using assms by (simp add: rank_candidates_def rank_batch_def split_beta)

lemma add_ranks_score_nth:
  "i < length xs \<Longrightarrow> score (add_ranks xs ! i) = score (xs ! i) \<and> rank (add_ranks xs ! i) = int (Suc i)"
  by (simp add: add_ranks_nth)

lemma add_ranks_order:
  assumes s: "sorted_wrt (\<lambda>x y. score y \<le> score x) xs"
    and x: "x \<in> set (add_ranks xs)" and y: "y \<in> set (add_ranks xs)"
    and lt: "score x < score y"
  shows "rank y < rank x"
proof -
  from x obtain i where i: "i < length xs" "x = add_ranks xs ! i"
    by (auto simp: in_set_conv_nth length_add_ranks)
  from y obtain j where j: "j < length xs" "y = add_ranks xs ! j"
    by (auto simp: in_set_conv_nth length_add_ranks)
  have sx: "score x = score (xs ! i)" and rx: "rank x = int (Suc i)"
    using i add_ranks_score_nth by auto
  have sy: "score y = score (xs ! j)" and ry: "rank y = int (Suc j)"
    using j add_ranks_score_nth by auto
  have "\<not> i < j"
  proof
    assume "i < j"
    with s j have "score (xs ! j) \<le> score (xs ! i)" by (simp add: sorted_wrt_iff_nth_less)
    with lt sx sy show False by simp
  qed
  moreover have "i \<noteq> j" using lt sx sy by auto
  ultimately have "j < i" by simp
  then show ?thesis by (simp add: rx ry)
qed

lemma sorted_add_ranks:
  assumes "sorted_wrt (\<lambda>x y. score y \<le> score x) xs"
  shows "sorted_wrt (\<lambda>x y. score y \<le> score x) (add_ranks xs)"
  using assms by (simp add: sorted_wrt_iff_nth_less length_add_ranks add_ranks_nth)



lemma evaluate_answer_calls:
  assumes "strip (candidate_says request) \<noteq> []"
  shows "snd (evaluate_answer E calls request) =
           (if groq_available E
            then calls @ [build_prompt (candidate_says request) (AnswerRequest.question_context request)]
            else calls)"
  using assms by (simp add: evaluate_answer_def evaluate_with_groq_calls)

text \<open>
  C8. A request whose \<open>candidate_says\<close> is empty after trimming is rejected with status 400,
  and the list of calls made to the provider is returned unchanged: no call is made.
\<close>

theorem evaluate_answer_rejects_blank:
  assumes "strip (candidate_says request) = []"
  shows "evaluate_answer E calls request =
           (Inl (HTTPException 400 (u ''Candidate answer cannot be empty'')), calls)"
  using assms by (simp add: evaluate_answer_def)

theorem evaluate_answer_rejects_blank_witness:
  "strip (candidate_says \<lparr>candidate_says = u '' \<newline>  '', question_context = u ''Why use React?''\<rparr>) = [] \<and>
   evaluate_answer scores_2551 []
       \<lparr>candidate_says = u '' \<newline>  '', question_context = u ''Why use React?''\<rparr> =
     (Inl (HTTPException 400 (u ''Candidate answer cannot be empty'')), [])"
proof -
  have h: "strip (candidate_says \<lparr>candidate_says = u '' \<newline>  '', question_context = u ''Why use React?''\<rparr>) = []"
    by (simp add: text_eval)
  from evaluate_answer_rejects_blank [OF h] h show ?thesis by blast
qed

lemma ranked_entry_origin:
  assumes "x \<in> set (add_ranks (sort_by_score (fst (evaluate_candidates E calls cs))))"
  shows "\<exists>i < length cs.
           evaluated.truncate x =
             fst (evaluate_candidate E (snd (evaluate_candidates E calls (take i cs))) (cs ! i))"
proof -
  let ?ev = "fst (evaluate_candidates E calls cs)"
  have "evaluated.truncate x \<in> set (map evaluated.truncate (add_ranks (sort_by_score ?ev)))"
    using assms by simp
  then have "evaluated.truncate x \<in> set ?ev"
    by (simp only: truncate_add_ranks set_sort_by_score)
  then obtain i where "i < length ?ev" "?ev ! i = evaluated.truncate x"
    by (auto simp: in_set_conv_nth)
  then show ?thesis
    using evaluate_candidates_nth [of i cs E calls] by (auto simp: evaluate_candidates_length)
qed

text \<open>
  C10. A successful evaluation has a score of at least 1, the entry recorded for a
  candidate has score 0 exactly when its evaluation failed, every entry of the ranked
  output is the entry recorded for one of the candidates, and in the ranked output every
  entry with score 0 has a larger rank than every entry with a positive score.
\<close>

theorem placeholders_rank_last:
  "(fst (evaluate_with_groq E calls0 a q) = Inr ev \<longrightarrow> 1 \<le> EvaluationResponse.score ev) \<and>
   (score (fst (evaluate_candidate E calls0 c)) = 0 \<longleftrightarrow>
      isl (fst (evaluate_with_groq E calls0 (CandidateAnswer.answer c)
                  (CandidateAnswer.question_context c)))) \<and>
   (rank_candidates E calls request = (Inr response, calls') \<longrightarrow>
      (\<forall>x \<in> set (ranked_candidates response). \<exists>i < length (candidates request).
         evaluated.truncate x =
           fst (evaluate_candidate E
                  (snd (evaluate_candidates E calls (take i (candidates request))))
                  (candidates request ! i)))) \<and>
   (rank_candidates E calls request = (Inr response, calls') \<longrightarrow>
      (\<forall>x \<in> set (ranked_candidates response). \<forall>y \<in> set (ranked_candidates response).
         score x = 0 \<and> 1 \<le> score y \<longrightarrow> rank y < rank x))"
proof (intro conjI impI ballI)
  fix x
  assume r: "rank_candidates E calls request = (Inr response, calls')"
    and x: "x \<in> set (ranked_candidates response)"
  have ne: "candidates request \<noteq> []"
    using r by (auto simp: rank_candidates_def)
  have "ranked_candidates response =
          add_ranks (sort_by_score (fst (evaluate_candidates E calls (candidates request))))"
    using r rank_candidates_nonempty [OF ne, of E calls] by auto
  with x show "\<exists>i < length (candidates request).
         evaluated.truncate x =
           fst (evaluate_candidate E
                  (snd (evaluate_candidates E calls (take i (candidates request))))
                  (candidates request ! i))"
    using ranked_entry_origin by simp
next
  assume "fst (evaluate_with_groq E calls0 a q) = Inr ev"
  then show "1 \<le> EvaluationResponse.score ev" using evaluate_with_groq_range by blast
next
  show "score (fst (evaluate_candidate E calls0 c)) = 0 \<longleftrightarrow>
      isl (fst (evaluate_with_groq E calls0 (CandidateAnswer.answer c)
                  (CandidateAnswer.question_context c)))"
    using evaluate_with_groq_range [of E calls0 "CandidateAnswer.answer c" "CandidateAnswer.question_context c"]
    by (auto simp: evaluate_candidate_score split: sum.splits)
next
  fix x y
  assume r: "rank_candidates E calls request = (Inr response, calls')"
    and x: "x \<in> set (ranked_candidates response)" and y: "y \<in> set (ranked_candidates response)"
    and s: "score x = 0 \<and> 1 \<le> score y"
  have ne: "candidates request \<noteq> []"
    using r by (auto simp: rank_candidates_def)
  have "ranked_candidates response =
          add_ranks (sort_by_score (fst (evaluate_candidates E calls (candidates request))))"
    using r rank_candidates_nonempty [OF ne, of E calls] by auto
  with x y s show "rank y < rank x"
    using add_ranks_order [OF sorted_sort_by_score, of x _ y] by simp
qed


lemma two_failures_ranked:
  "rank_candidates two_failures [] \<lparr>candidates = four_candidates\<rparr> =
     (Inr \<lparr>ranked_candidates =
        [\<lparr>evaluated.candidate_id = u ''C001'', answer = u ''React is component-based'',
          score = 4, summary = u ''ok'', improvement = u ''more'', rank = 1\<rparr>,
         \<lparr>evaluated.candidate_id = u ''C004'', answer = u ''I do not know much about React'',
          score = 3, summary = u ''ok'', improvement = u ''more'', rank = 2\<rparr>,
         \<lparr>evaluated.candidate_id = u ''C002'',
          answer = u ''React provides reusability and a virtual DOM'', score = 0,
          summary = u ''Evaluation failed: 500: Groq API error: Connection error.'',
          improvement = u ''Please retry evaluation'', rank = 3\<rparr>,
         \<lparr>evaluated.candidate_id = u ''C003'',
          answer = u ''Components, one-way data flow, a large ecosystem'', score = 0,
          summary = u ''Evaluation failed: 500: Could not parse JSON from response: Sorry, I cannot score this.'',
          improvement = u ''Please retry evaluation'', rank = 4\<rparr>]\<rparr>,
      map (\<lambda>c. build_prompt (CandidateAnswer.answer c) (CandidateAnswer.question_context c))
        four_candidates)"
  by (simp add: two_failures_def rank_eval extract_eval text_eval json_eval)

theorem placeholders_rank_last_witness:
  "rank (ranked_candidates (projr (fst (rank_candidates two_failures [] \<lparr>candidates = four_candidates\<rparr>))) ! 1)
     < rank (ranked_candidates (projr (fst (rank_candidates two_failures [] \<lparr>candidates = four_candidates\<rparr>))) ! 2) \<and>
   score (ranked_candidates (projr (fst (rank_candidates two_failures [] \<lparr>candidates = four_candidates\<rparr>))) ! 2) = 0 \<and>
   score (ranked_candidates (projr (fst (rank_candidates two_failures [] \<lparr>candidates = four_candidates\<rparr>))) ! 1) = 3"
proof -
  let ?r = "rank_candidates two_failures [] \<lparr>candidates = four_candidates\<rparr>"
  let ?out = "ranked_candidates (projr (fst ?r))"
  have r: "?r = (Inr (projr (fst ?r)), snd ?r)"
    by (simp add: two_failures_ranked)
  have x: "?out ! 2 \<in> set ?out" and y: "?out ! 1 \<in> set ?out"
    by (simp_all add: two_failures_ranked)
  have s: "score (?out ! 2) = 0 \<and> 1 \<le> score (?out ! 1)" and s1: "score (?out ! 1) = 3"
    by (simp_all add: two_failures_ranked)
  from placeholders_rank_last [where E = two_failures and calls = "[]"
      and request = "\<lparr>candidates = four_candidates\<rparr>" and response = "projr (fst ?r)"
      and calls' = "snd ?r"]
  have "\<forall>x \<in> set ?out. \<forall>y \<in> set ?out. score x = 0 \<and> 1 \<le> score y \<longrightarrow> rank y < rank x"
    using r by blast
  with x y s have "rank (?out ! 1) < rank (?out ! 2)" by blast
  with s s1 show ?thesis by blast
qed

text \<open>
  C1. For a non-empty batch \<open>rank_candidates\<close> returns a response with one entry per
  candidate, whatever the evaluations do; and for each candidate whose evaluation raises
  \<open>e\<close> (evaluated after the calls made for the candidates before it), the response has an
  entry with that candidate's id and answer, score 0, the summary
  \<open>Evaluation failed: \<close> followed by \<open>str(e)\<close>, and the fixed improvement text.
\<close>

theorem rank_candidates_isolates_failures:
  assumes "candidates request \<noteq> []"
  shows "\<exists>ranked calls'.
           rank_candidates E calls request = (Inr \<lparr>ranked_candidates = ranked\<rparr>, calls') \<and>
           length ranked = length (candidates request) \<and>
           (\<forall>i e. i < length (candidates request) \<and>
                  fst (evaluate_with_groq E
                         (snd (evaluate_candidates E calls (take i (candidates request))))
                         (CandidateAnswer.answer (candidates request ! i))
                         (CandidateAnswer.question_context (candidates request ! i))) = Inl e \<longrightarrow>
                  (\<exists>x \<in> set ranked.
                     candidate_id x = CandidateAnswer.candidate_id (candidates request ! i) \<and>
                     answer x = CandidateAnswer.answer (candidates request ! i) \<and>
                     score x = 0 \<and>
                     summary x = u ''Evaluation failed: '' @ exn_str E e \<and>
                     improvement x = u ''Please retry evaluation''))"
proof -
  let ?cs = "candidates request"
  let ?ev = "fst (evaluate_candidates E calls ?cs)"
  let ?ranked = "add_ranks (sort_by_score ?ev)"
  have r: "rank_candidates E calls request =
             (Inr \<lparr>ranked_candidates = ?ranked\<rparr>, snd (evaluate_candidates E calls ?cs))"
    by (rule rank_candidates_nonempty [OF assms])
  have l: "length ?ranked = length ?cs"
    by (simp add: length_add_ranks length_sort_by_score evaluate_candidates_length)
  have p: "\<exists>x \<in> set ?ranked.
             candidate_id x = CandidateAnswer.candidate_id (?cs ! i) \<and>
             answer x = CandidateAnswer.answer (?cs ! i) \<and> score x = 0 \<and>
             summary x = u ''Evaluation failed: '' @ exn_str E e \<and>
             improvement x = u ''Please retry evaluation''"
    if i: "i < length ?cs"
      and f: "fst (evaluate_with_groq E (snd (evaluate_candidates E calls (take i ?cs)))
                (CandidateAnswer.answer (?cs ! i)) (CandidateAnswer.question_context (?cs ! i))) = Inl e"
    for i e
  proof -
    let ?p = "\<lparr>evaluated.candidate_id = CandidateAnswer.candidate_id (?cs ! i),
               answer = CandidateAnswer.answer (?cs ! i), score = 0,
               summary = u ''Evaluation failed: '' @ exn_str E e,
               improvement = u ''Please retry evaluation''\<rparr>"
    have "?ev ! i = ?p"
      using evaluate_candidates_nth [OF i, of E calls] evaluate_candidate_failed [OF f] by simp
    then have "?p \<in> set ?ev"
      using i by (metis evaluate_candidates_length nth_mem)
    then have "?p \<in> set (sort_by_score ?ev)" by (simp add: set_sort_by_score)
    then obtain j where j: "j < length (sort_by_score ?ev)" "sort_by_score ?ev ! j = ?p"
      by (auto simp: in_set_conv_nth)
    have "?ranked ! j \<in> set ?ranked" using j by (simp add: length_add_ranks)
    moreover have "?ranked ! j =
        \<lparr>evaluated.candidate_id = candidate_id ?p, answer = answer ?p, score = score ?p,
         summary = summary ?p, improvement = improvement ?p, rank = int (Suc j)\<rparr>"
      using add_ranks_nth [OF j(1)] j(2) by simp
    ultimately show ?thesis by (intro bexI [of _ "?ranked ! j"]) simp_all
  qed
  show ?thesis
    using r l p by blast
qed

theorem rank_candidates_isolates_failures_witness:
  "candidates \<lparr>candidates = four_candidates\<rparr> \<noteq> [] \<and>
   fst (evaluate_with_groq two_failures
          (snd (evaluate_candidates two_failures [] (take 1 four_candidates)))
          (CandidateAnswer.answer (four_candidates ! 1))
          (CandidateAnswer.question_context (four_candidates ! 1))) =
     Inl (HTTPException 500 (u ''Groq API error: Connection error.'')) \<and>
   (\<exists>ranked calls'.
      rank_candidates two_failures [] \<lparr>candidates = four_candidates\<rparr> =
        (Inr \<lparr>ranked_candidates = ranked\<rparr>, calls') \<and>
      length ranked = 4 \<and>
      (\<exists>x \<in> set ranked.
         candidate_id x = u ''C002'' \<and>
         answer x = u ''React provides reusability and a virtual DOM'' \<and>
         score x = 0 \<and>
         summary x = u ''Evaluation failed: 500: Groq API error: Connection error.'' \<and>
         improvement x = u ''Please retry evaluation''))"
proof -
  let ?req = "\<lparr>candidates = four_candidates\<rparr>"
  have h: "candidates ?req \<noteq> []" by (simp add: four_candidates_def)
  have f: "fst (evaluate_with_groq two_failures
          (snd (evaluate_candidates two_failures [] (take 1 (candidates ?req))))
          (CandidateAnswer.answer (candidates ?req ! 1))
          (CandidateAnswer.question_context (candidates ?req ! 1))) =
     Inl (HTTPException 500 (u ''Groq API error: Connection error.''))"
    by (simp add: two_failures_def rank_eval extract_eval text_eval json_eval)
  have l: "length (candidates ?req) = 4" "(1::nat) < 4" by (simp_all add: four_candidates_def)
  have c: "CandidateAnswer.candidate_id (candidates ?req ! 1) = u ''C002''"
    "CandidateAnswer.answer (candidates ?req ! 1) = u ''React provides reusability and a virtual DOM''"
    by (simp_all add: four_candidates_def candidate_def)
  have s: "u ''Evaluation failed: '' @
           exn_str two_failures (HTTPException 500 (u ''Groq API error: Connection error.'')) =
         u ''Evaluation failed: 500: Groq API error: Connection error.''"
    by (simp add: two_failures_def reference_env_def ref_http_str_def u_def)
  from rank_candidates_isolates_failures [OF h, of two_failures "[]"]
  obtain ranked calls' where
    r: "rank_candidates two_failures [] ?req = (Inr \<lparr>ranked_candidates = ranked\<rparr>, calls')"
    and n: "length ranked = length (candidates ?req)"
    and a: "\<forall>i e. i < length (candidates ?req) \<and>
                  fst (evaluate_with_groq two_failures
                         (snd (evaluate_candidates two_failures [] (take i (candidates ?req))))
                         (CandidateAnswer.answer (candidates ?req ! i))
                         (CandidateAnswer.question_context (candidates ?req ! i))) = Inl e \<longrightarrow>
                  (\<exists>x \<in> set ranked.
                     candidate_id x = CandidateAnswer.candidate_id (candidates ?req ! i) \<and>
                     answer x = CandidateAnswer.answer (candidates ?req ! i) \<and>
                     score x = 0 \<and>
                     summary x = u ''Evaluation failed: '' @ exn_str two_failures e \<and>
                     improvement x = u ''Please retry evaluation'')"
    by blast
  from a [rule_format, of 1 "HTTPException 500 (u ''Groq API error: Connection error.'')"] f l
  have "\<exists>x \<in> set ranked.
          candidate_id x = CandidateAnswer.candidate_id (candidates ?req ! 1) \<and>
          answer x = CandidateAnswer.answer (candidates ?req ! 1) \<and>
          score x = 0 \<and>
          summary x = u ''Evaluation failed: '' @
            exn_str two_failures (HTTPException 500 (u ''Groq API error: Connection error.'')) \<and>
          improvement x = u ''Please retry evaluation''"
    by simp
  then have "\<exists>x \<in> set ranked.
         candidate_id x = u ''C002'' \<and>
         answer x = u ''React provides reusability and a virtual DOM'' \<and>
         score x = 0 \<and>
         summary x = u ''Evaluation failed: 500: Groq API error: Connection error.'' \<and>
         improvement x = u ''Please retry evaluation''"
    unfolding c s .
  with r n l(1) h f show ?thesis by auto
qed

lemma evaluate_candidates_ids:
  assumes "i < length cs"
  shows "candidate_id (fst (evaluate_candidates E calls cs) ! i) = CandidateAnswer.candidate_id (cs ! i)"
  using evaluate_candidates_nth [OF assms, of E calls] evaluate_candidate_fields by simp

lemma sort_by_score_2551:
  assumes "score a = 2" "score b = 5" "score c = 5" "score d = 1"
  shows "sort_by_score [a, b, c, d] = [b, c, a, d]"
  using assms by (simp add: sort_by_score_def)

lemma add_ranks_four:
  "map (\<lambda>x. (candidate_id x, score x, rank x)) (add_ranks [b, c, a, d]) =
     [(candidate_id b, score b, 1), (candidate_id c, score c, 2),
      (candidate_id a, score a, 3), (candidate_id d, score d, 4)]"
  by (simp add: add_ranks_def enumerate_eq_zip)

text \<open>
  C2. For a non-empty batch the response lists the evaluated candidates by descending
  score, candidates of equal score in their input order, and the ranks are 1, 2, ..., N in
  that order; when the evaluated scores are 2, 5, 5, 1 in input order, the response lists
  the second candidate with rank 1, the third with rank 2, the first with rank 3 and the
  fourth with rank 4.
\<close>

theorem rank_candidates_sorted_stable:
  assumes "candidates request \<noteq> []"
  shows "\<exists>ranked calls'.
           rank_candidates E calls request = (Inr \<lparr>ranked_candidates = ranked\<rparr>, calls') \<and>
           map rank ranked = map int [1..<Suc (length (candidates request))] \<and>
           sorted_wrt (\<lambda>x y. score y \<le> score x) ranked \<and>
           (\<forall>k. filter (\<lambda>x. score x = k) (map evaluated.truncate ranked) =
                filter (\<lambda>x. score x = k) (fst (evaluate_candidates E calls (candidates request)))) \<and>
           (map score (fst (evaluate_candidates E calls (candidates request))) = [2, 5, 5, 1] \<longrightarrow>
              map (\<lambda>x. (candidate_id x, score x, rank x)) ranked =
                [(CandidateAnswer.candidate_id (candidates request ! 1), 5, 1),
                 (CandidateAnswer.candidate_id (candidates request ! 2), 5, 2),
                 (CandidateAnswer.candidate_id (candidates request ! 0), 2, 3),
                 (CandidateAnswer.candidate_id (candidates request ! 3), 1, 4)])"
proof -
  let ?cs = "candidates request"
  let ?ev = "fst (evaluate_candidates E calls ?cs)"
  let ?ranked = "add_ranks (sort_by_score ?ev)"
  have r: "rank_candidates E calls request =
             (Inr \<lparr>ranked_candidates = ?ranked\<rparr>, snd (evaluate_candidates E calls ?cs))"
    by (rule rank_candidates_nonempty [OF assms])
  have n: "map rank ?ranked = map int [1..<Suc (length ?cs)]"
    by (simp only: map_rank_add_ranks length_sort_by_score evaluate_candidates_length)
  have s: "sorted_wrt (\<lambda>x y. score y \<le> score x) ?ranked"
    by (rule sorted_add_ranks [OF sorted_sort_by_score])
  have t: "filter (\<lambda>x. score x = k) (map evaluated.truncate ?ranked) =
           filter (\<lambda>x. score x = k) ?ev" for k
    by (simp only: truncate_add_ranks stable_sort_by_score)
  have x: "map (\<lambda>x. (candidate_id x, score x, rank x)) ?ranked =
                [(CandidateAnswer.candidate_id (?cs ! 1), 5, 1),
                 (CandidateAnswer.candidate_id (?cs ! 2), 5, 2),
                 (CandidateAnswer.candidate_id (?cs ! 0), 2, 3),
                 (CandidateAnswer.candidate_id (?cs ! 3), 1, 4)]"
    if m: "map score ?ev = [2, 5, 5, 1]"
  proof -
    from m have "length ?ev = 4" by (metis length_map length_Cons list.size(3) numeral_2_eq_2 numeral_3_eq_3 numeral_Bit0 Suc_eq_plus1 add_2_eq_Suc' one_add_one)
    then obtain a b c d where ev: "?ev = [a, b, c, d]"
      by (auto simp: length_Suc_conv numeral_eq_Suc)
    with m have sc: "score a = 2" "score b = 5" "score c = 5" "score d = 1" by simp_all
    have len: "length ?cs = 4" using ev evaluate_candidates_length [of E calls ?cs] by simp
    have ids: "candidate_id a = CandidateAnswer.candidate_id (?cs ! 0)"
      "candidate_id b = CandidateAnswer.candidate_id (?cs ! 1)"
      "candidate_id c = CandidateAnswer.candidate_id (?cs ! 2)"
      "candidate_id d = CandidateAnswer.candidate_id (?cs ! 3)"
      using evaluate_candidates_ids [of 0 ?cs E calls] evaluate_candidates_ids [of 1 ?cs E calls]
        evaluate_candidates_ids [of 2 ?cs E calls] evaluate_candidates_ids [of 3 ?cs E calls]
        len ev by simp_all
    show ?thesis
      by (simp only: ev sort_by_score_2551 [OF sc] add_ranks_four sc ids)
  qed
  show ?thesis
  proof (intro exI conjI allI impI)
    show "rank_candidates E calls request =
            (Inr \<lparr>ranked_candidates = ?ranked\<rparr>, snd (evaluate_candidates E calls ?cs))"
      by (rule r)
  qed (rule n s t x | assumption)+
qed

theorem rank_candidates_sorted_stable_witness:
  "candidates \<lparr>candidates = four_candidates\<rparr> \<noteq> [] \<and>
   map score (fst (evaluate_candidates scores_2551 [] four_candidates)) = [2, 5, 5, 1] \<and>
   (\<exists>ranked calls'.
      rank_candidates scores_2551 [] \<lparr>candidates = four_candidates\<rparr> =
        (Inr \<lparr>ranked_candidates = ranked\<rparr>, calls') \<and>
      map rank ranked = [1, 2, 3, 4] \<and>
      map (\<lambda>x. (candidate_id x, score x, rank x)) ranked =
        [(u ''C002'', 5, 1), (u ''C003'', 5, 2), (u ''C001'', 2, 3), (u ''C004'', 1, 4)])"
proof -
  let ?req = "\<lparr>candidates = four_candidates\<rparr>"
  have h: "candidates ?req \<noteq> []" by (simp add: four_candidates_def)
  have m: "map score (fst (evaluate_candidates scores_2551 [] (candidates ?req))) = [2, 5, 5, 1]"
    by (simp add: scores_2551_def rank_eval extract_eval text_eval json_eval)
  have l: "[1..<Suc (length (candidates ?req))] = [1, 2, 3, 4]"
    by (simp add: four_candidates_def upt_rec)
  have c: "CandidateAnswer.candidate_id (candidates ?req ! 1) = u ''C002''"
    "CandidateAnswer.candidate_id (candidates ?req ! 2) = u ''C003''"
    "CandidateAnswer.candidate_id (candidates ?req ! 0) = u ''C001''"
    "CandidateAnswer.candidate_id (candidates ?req ! 3) = u ''C004''"
    by (simp_all add: four_candidates_def candidate_def)
  from rank_candidates_sorted_stable [OF h, of scores_2551 "[]"]
  obtain ranked calls' where
    r: "rank_candidates scores_2551 [] ?req = (Inr \<lparr>ranked_candidates = ranked\<rparr>, calls')"
    and n: "map rank ranked = map int [1..<Suc (length (candidates ?req))]"
    and x: "map score (fst (evaluate_candidates scores_2551 [] (candidates ?req))) = [2, 5, 5, 1] \<longrightarrow>
              map (\<lambda>x. (candidate_id x, score x, rank x)) ranked =
                [(CandidateAnswer.candidate_id (candidates ?req ! 1), 5, 1),
                 (CandidateAnswer.candidate_id (candidates ?req ! 2), 5, 2),
                 (CandidateAnswer.candidate_id (candidates ?req ! 0), 2, 3),
                 (CandidateAnswer.candidate_id (candidates ?req ! 3), 1, 4)]"
    by (elim exE conjE) (erule (2) that)
  from n have n': "map rank ranked = [1, 2, 3, 4]" unfolding l by simp
  from x m have "map (\<lambda>x. (candidate_id x, score x, rank x)) ranked =
        [(u ''C002'', 5, 1), (u ''C003'', 5, 2), (u ''C001'', 2, 3), (u ''C004'', 1, 4)]"
    unfolding c by blast
  with r n' h m show ?thesis by auto
qed

section \<open>What an evaluation can hold\<close>

text \<open>
  C5 (amended). Every \<open>EvaluationResponse\<close> that \<open>evaluate_with_groq\<close> or \<open>evaluate_answer\<close>
  returns comes from a successful extraction of the provider's response and has a score
  from 1 to 5. Its summary and improvement are strings; nothing requires them to be
  non-empty.
\<close>

theorem evaluation_score_in_range:
  "(fst (evaluate_with_groq E calls a q) = Inr ev \<longrightarrow>
      1 \<le> EvaluationResponse.score ev \<and> EvaluationResponse.score ev \<le> 5 \<and>
      (\<exists>content. create E (length calls) (build_prompt a q) = Inr content \<and>
                 extract_evaluation E content = Inr ev)) \<and>
   (fst (evaluate_answer E calls request) = Inr ev \<longrightarrow>
      1 \<le> EvaluationResponse.score ev \<and> EvaluationResponse.score ev \<le> 5)"
proof (intro conjI impI)
  assume a: "fst (evaluate_answer E calls request) = Inr ev"
  then have "fst (evaluate_with_groq E calls (candidate_says request)
                    (AnswerRequest.question_context request)) = Inr ev"
    by (auto simp: evaluate_answer_def split: if_splits)
  then show "1 \<le> EvaluationResponse.score ev" "EvaluationResponse.score ev \<le> 5"
    using evaluate_with_groq_range by blast+
qed (use evaluate_with_groq_range evaluate_with_groq_Inr in blast)+

theorem evaluation_score_in_range_witness:
  "fst (evaluate_with_groq scores_2551 [] (u ''React is component-based'') (u ''Why use React?'')) =
     Inr \<lparr>EvaluationResponse.score = 2, summary = u ''ok'', improvement = u ''more''\<rparr> \<and>
   1 \<le> EvaluationResponse.score
         \<lparr>EvaluationResponse.score = 2, summary = u ''ok'', improvement = u ''more''\<rparr> \<and>
   EvaluationResponse.score
         \<lparr>EvaluationResponse.score = 2, summary = u ''ok'', improvement = u ''more''\<rparr> \<le> 5"
proof -
  have h: "fst (evaluate_with_groq scores_2551 [] (u ''React is component-based'') (u ''Why use React?'')) =
     Inr \<lparr>EvaluationResponse.score = 2, summary = u ''ok'', improvement = u ''more''\<rparr>"
    by (simp add: scores_2551_def rank_eval extract_eval text_eval json_eval)
  from evaluation_score_in_range [where E = scores_2551 and calls = "[]"
      and a = "u ''React is component-based''" and q = "u ''Why use React?''"
      and ev = "\<lparr>EvaluationResponse.score = 2, summary = u ''ok'', improvement = u ''more''\<rparr>"] h
  show ?thesis by blast
qed

text \<open>
  C5 as stated fails: a response whose summary and improvement are empty strings is
  accepted, and the evaluation returned carries them.
\<close>

theorem empty_summary_is_returned:
  \<open>fst (evaluate_with_groq
          (reference_env (canned [Inr (u ''{"score": 3, "summary": "", "improvement": ""}'')]))
          [] (u ''React is component-based'') (u ''Why use React?'')) =
     Inr \<lparr>EvaluationResponse.score = 3, summary = [], improvement = []\<rparr>\<close>
  by (simp add: rank_eval extract_eval text_eval json_eval)

section \<open>Validation failures\<close>

lemma missing_fields_dict:
  "missing_fields E (JDict kvs) =
     Inr (\<not> (u ''score'' \<in> fst ` set kvs \<and> u ''summary'' \<in> fst ` set kvs \<and>
              u ''improvement'' \<in> fst ` set kvs))"
  by (simp add: missing_fields_def and_then_def)

lemma extract_evaluation_parsed:
  assumes "parse_json E (strip_markdown (strip content)) = Inr result"
  shows "extract_evaluation E content =
           (case validate_and_build E result of
              Inr ev \<Rightarrow> Inr ev
            | Inl e \<Rightarrow> Inl (handle E (Some (strip_markdown (strip content))) e))"
  using assms by (simp add: extract_evaluation_def Let_def and_then_def)

text \<open>
  C6. When the parse (direct or by brace span) yields an object that lacks one of the keys
  \<open>score\<close>, \<open>summary\<close>, \<open>improvement\<close>, the extraction fails with status 500 and the detail
  \<open>Missing required fields in response: \<close> followed by the parsed object; no evaluation is
  returned.
\<close>

theorem missing_field_is_rejected:
  assumes "parse_json E (strip_markdown (strip content)) = Inr (JDict kvs)"
    and "u ''score'' \<notin> fst ` set kvs \<or> u ''summary'' \<notin> fst ` set kvs \<or>
         u ''improvement'' \<notin> fst ` set kvs"
  shows "extract_evaluation E content =
           Inl (HTTPException 500
                  (u ''Missing required fields in response: '' @ py_repr E (JDict kvs)))"
proof -
  have "validate_and_build E (JDict kvs) =
          Inl (ValueError (u ''Missing required fields in response: '' @ py_repr E (JDict kvs)))"
    using assms(2) by (auto simp: validate_and_build_def missing_fields_dict and_then_def py_str_def)
  then show ?thesis
    by (simp add: extract_evaluation_parsed [OF assms(1)] handle_def)
qed

theorem missing_field_is_rejected_witness:
  \<open>parse_json (reference_env (canned [])) (strip_markdown (strip (u ''{"score": 3, "summary": "a"}''))) =
     Inr (JDict [(u ''score'', JInt 3), (u ''summary'', JStr (u ''a''))]) \<and>
   u ''improvement'' \<notin> fst ` set [(u ''score'', JInt 3), (u ''summary'', JStr (u ''a''))] \<and>
   extract_evaluation (reference_env (canned [])) (u ''{"score": 3, "summary": "a"}'') =
     Inl (HTTPException 500
            (u ''Missing required fields in response: '' @
             py_repr (reference_env (canned []))
               (JDict [(u ''score'', JInt 3), (u ''summary'', JStr (u ''a''))])))\<close>
proof -
  let ?E = "reference_env (canned [])"
  let ?kvs = "[(u ''score'', JInt 3), (u ''summary'', JStr (u ''a''))]"
  have p: \<open>parse_json ?E (strip_markdown (strip (u ''{"score": 3, "summary": "a"}''))) = Inr (JDict ?kvs)\<close>
    by (simp add: extract_eval text_eval json_eval)
  have k: "u ''improvement'' \<notin> fst ` set ?kvs" by (simp add: u_def)
  from missing_field_is_rejected [OF p] k p show ?thesis by blast
qed





section \<open>The fence pattern on a fenced object\<close>

lemma fence_eq: "fence = [96, 96, 96]"
  by (simp add: fence_def u_def)

lemma json_kw_eq: "json_kw = [106, 115, 111, 110]"
  by (simp add: json_kw_def u_def)

lemma not_space_96: "\<not> is_space 96" and not_space_106: "\<not> is_space 106"
  and not_space_123: "\<not> is_space 123" and not_space_125: "\<not> is_space 125"
  by (simp_all add: is_space_def)

lemma rx_close_iff: "rx_close t \<longleftrightarrow> prefix fence (dropWhile is_space t)"
proof
  assume "rx_close t"
  then have "\<exists>k. k \<le> ws_run t \<and> prefix fence (drop k t)"
    unfolding rx_close_def greedy_ws_def list_ex_iff by (fastforce intro: less_imp_le)
  then obtain k where k: "k \<le> ws_run t" and p: "prefix fence (drop k t)" by blast
  have "k = ws_run t"
  proof (rule ccontr)
    assume "k \<noteq> ws_run t"
    with k have lt: "k < length (takeWhile is_space t)" by (simp add: ws_run_def)
    then have kt: "k < length t" using length_takeWhile_le [of is_space t] by simp
    have "is_space (t ! k)"
      using lt by (metis nth_mem set_takeWhileD takeWhile_nth)
    moreover have "drop k t = t ! k # drop (Suc k) t"
      using kt by (simp add: Cons_nth_drop_Suc)
    ultimately show False using p not_space_96 by (auto simp: fence_eq)
  qed
  with p show "prefix fence (dropWhile is_space t)"
    by (simp add: ws_run_def dropWhile_eq_drop)
next
  assume "prefix fence (dropWhile is_space t)"
  then have "prefix fence (drop (ws_run t) t)"
    by (simp add: ws_run_def dropWhile_eq_drop)
  then show "rx_close t"
    by (auto simp: rx_close_def greedy_ws_def list_ex_iff intro: bexI [of _ "ws_run t"])
qed

lemma rx_group_Nil: "rx_close t \<Longrightarrow> rx_group t = Some []"
  by (cases t) simp_all

lemma rx_group_append:
  assumes "\<And>b'. suffix b' b \<Longrightarrow> b' \<noteq> [] \<Longrightarrow> \<not> rx_close (b' @ tail)"
    and "rx_close tail"
  shows "rx_group (b @ tail) = Some b"
  using assms
proof (induction b)
  case Nil
  then show ?case by (simp add: rx_group_Nil)
next
  case (Cons c cs)
  have n: "\<not> rx_close ((c # cs) @ tail)" using Cons.prems(1) [of "c # cs"] by simp
  have "rx_group (cs @ tail) = Some cs"
  proof (rule Cons.IH)
    fix b' assume "suffix b' cs" "b' \<noteq> []"
    then show "\<not> rx_close (b' @ tail)"
      using Cons.prems(1) [of b'] by (simp add: suffix_Cons)
  qed (rule Cons.prems(2))
  with n show ?case by simp
qed

lemma no_close_inside:
  assumes nf: "\<not> sublist fence obj" and l: "last obj = 125"
    and s: "suffix b obj" and ne: "b \<noteq> []"
  shows "\<not> rx_close (b @ tail)"
proof
  assume "rx_close (b @ tail)"
  then have p: "prefix fence (dropWhile is_space (b @ tail))" by (simp add: rx_close_iff)
  have lb: "last b = 125" using s ne l by (auto simp: suffix_def)
  then have nsp: "\<exists>x \<in> set b. \<not> is_space x"
    using ne not_space_125 by (metis last_in_set)
  let ?b = "dropWhile is_space b"
  have d: "dropWhile is_space (b @ tail) = ?b @ tail"
    using nsp by (auto intro: dropWhile_append1)
  have bne: "?b \<noteq> []" using nsp by (simp add: dropWhile_eq_Nil_conv)
  have sb: "suffix ?b obj"
    using s by (meson suffix_dropWhile suffix_order.trans)
  have lb': "last ?b = 125"
    using lb bne by (metis takeWhile_dropWhile_id last_appendR)
  from p d have "prefix fence ?b \<or> prefix ?b fence"
    by (metis prefix_append prefix_same_cases prefixI)
  then show False
  proof
    assume "prefix fence ?b"
    then have "sublist fence obj"
      using sb by (meson prefix_imp_sublist suffix_imp_sublist sublist_order.order_trans)
    with nf show False by simp
  next
    assume "prefix ?b fence"
    then have "set ?b \<subseteq> set fence" by (rule set_mono_prefix)
    then have "set ?b \<subseteq> {96}" by (simp add: fence_eq)
    moreover have "last ?b \<in> set ?b" using bne by simp
    ultimately have "last ?b = 96" by blast
    with lb' show False by simp
  qed
qed

lemma lstrip_blank_append:
  assumes "blank w" "x \<noteq> []" "\<not> is_space (hd x)"
  shows "lstrip (w @ x) = x"
proof -
  have "dropWhile is_space (w @ x) = dropWhile is_space x"
    using assms(1) by (intro dropWhile_append2) (simp add: blank_def)
  then show ?thesis using assms(2,3) lstrip_id [of x] by (simp add: lstrip_def)
qed

lemma rstrip_append:
  assumes "x \<noteq> []" "\<not> is_space (last x)"
  shows "rstrip (x @ y) = x @ rstrip y"
proof (cases "\<forall>c \<in> set (rev y). is_space c")
  case True
  then have "dropWhile is_space (rev y @ rev x) = dropWhile is_space (rev x)"
    by (intro dropWhile_append2) simp
  moreover have "dropWhile is_space (rev x) = rev x"
    using assms by (cases x rule: rev_cases) simp_all
  moreover have "dropWhile is_space (rev y) = []" using True by simp
  ultimately show ?thesis by (simp add: rstrip_def)
next
  case False
  then obtain c where "c \<in> set (rev y)" "\<not> is_space c" by blast
  then have "dropWhile is_space (rev y @ rev x) = dropWhile is_space (rev y) @ rev x"
    by (rule dropWhile_append1)
  then show ?thesis by (simp add: rstrip_def)
qed

lemma rstrip_blank: "blank w \<Longrightarrow> rstrip w = []"
  by (simp add: rstrip_def blank_def)

lemma strip_wrap_rest:
  assumes "blank w" "x \<noteq> []" "\<not> is_space (hd x)" "\<not> is_space (last x)"
  shows "strip (w @ x @ y) = x @ rstrip y"
proof -
  have "lstrip (w @ (x @ y)) = x @ y"
    using assms(1-3) by (intro lstrip_blank_append) simp_all
  then show ?thesis using rstrip_append [OF assms(2,4)] by (simp add: strip_def)
qed

lemma strip_wrap:
  assumes "blank w1" "blank w2" "x \<noteq> []" "\<not> is_space (hd x)" "\<not> is_space (last x)"
  shows "strip (w1 @ x @ w2) = x"
  using strip_wrap_rest [OF assms(1,3,4,5), of w2] rstrip_blank [OF assms(2)] by simp

lemma ws_run_blank_append:
  assumes "blank w" "x \<noteq> []" "\<not> is_space (hd x)"
  shows "ws_run (w @ x) = length w"
proof -
  have "takeWhile is_space (w @ x) = w @ takeWhile is_space x"
    using assms(1) by (intro takeWhile_append2) (simp add: blank_def)
  moreover have "takeWhile is_space x = []" using assms(2,3) by (cases x) simp_all
  ultimately show ?thesis by (simp add: ws_run_def)
qed

lemma rx_ws_group_blank:
  assumes "blank w" "x \<noteq> []" "\<not> is_space (hd x)" "rx_group x = Some g"
  shows "rx_ws_group (w @ x) = Some g"
proof -
  have "greedy_ws (w @ x) = length w # rev [0..<length w]"
    by (simp add: greedy_ws_def ws_run_blank_append [OF assms(1-3)])
  then show ?thesis using assms(4) by (simp add: rx_ws_group_def)
qed

lemma prefix_json_kw_hd: "prefix json_kw t \<Longrightarrow> t \<noteq> [] \<and> hd t = 106"
  by (auto simp: json_kw_eq prefix_def)

lemma prefix_fence_hd: "prefix fence t \<Longrightarrow> t \<noteq> [] \<and> hd t = 96"
  by (auto simp: fence_eq prefix_def)

lemma rx_tag_group_untagged:
  assumes "blank w" "x \<noteq> []" "hd x = 123" "rx_group x = Some g"
  shows "rx_tag_group (w @ x) = Some g"
proof -
  have "hd (w @ x) \<noteq> 106"
  proof (cases w)
    case Nil
    then show ?thesis using assms(3) by simp
  next
    case (Cons c cs)
    then have "is_space c" using assms(1) by (simp add: blank_def)
    then show ?thesis using Cons not_space_106 by auto
  qed
  then have "\<not> prefix json_kw (w @ x)" using prefix_json_kw_hd by blast
  moreover have "rx_ws_group (w @ x) = Some g"
    using assms not_space_123 by (intro rx_ws_group_blank) simp_all
  ultimately show ?thesis by (simp add: rx_tag_group_def)
qed

lemma rx_tag_group_tagged:
  assumes "blank w" "x \<noteq> []" "hd x = 123" "rx_group x = Some g"
  shows "rx_tag_group (json_kw @ w @ x) = Some g"
proof -
  have "rx_ws_group (w @ x) = Some g"
    using assms not_space_123 by (intro rx_ws_group_blank) simp_all
  moreover have "drop 4 (json_kw @ w @ x) = w @ x" by (simp add: json_kw_eq)
  ultimately show ?thesis by (simp add: rx_tag_group_def)
qed

lemma re_search_fence_at: "rx_fence_at t = Some g \<Longrightarrow> re_search_fence t = Some g"
  by (cases t) simp_all

lemma re_search_fence_fenced:
  assumes "rx_tag_group t = Some g"
  shows "re_search_fence (fence @ t) = Some g"
proof -
  have "drop 3 (fence @ t) = t" by (simp add: fence_eq)
  then have "rx_fence_at (fence @ t) = Some g" using assms by (simp add: rx_fence_at_def)
  then show ?thesis by (rule re_search_fence_at)
qed

lemma rx_group_object:
  assumes "\<not> sublist fence obj" "last obj = 125" "blank w"
  shows "rx_group (obj @ w @ fence @ rest) = Some obj"
proof (rule rx_group_append)
  fix b' assume "suffix b' obj" "b' \<noteq> []"
  then show "\<not> rx_close (b' @ w @ fence @ rest)"
    using no_close_inside [OF assms(1,2)] by blast
next
  have "dropWhile is_space (w @ fence @ rest) = dropWhile is_space (fence @ rest)"
    using assms(3) by (intro dropWhile_append2) (simp add: blank_def)
  then show "rx_close (w @ fence @ rest)"
    using not_space_96 by (simp add: rx_close_iff fence_eq)
qed

text \<open>What \<open>_strip_markdown\<close> leaves of an object in each of its presentations.\<close>

lemma strip_markdown_object:
  assumes "obj \<noteq> []" "hd obj = 123" "last obj = 125"
  shows "strip_markdown obj = obj"
proof -
  have s: "strip obj = obj"
    using assms not_space_123 not_space_125 by (intro strip_id) (simp add: stripped_def)
  have "\<not> prefix fence obj" using prefix_fence_hd assms(2) by fastforce
  moreover have "\<not> prefix json_kw obj" using prefix_json_kw_hd assms(2) by fastforce
  ultimately show ?thesis by (simp add: strip_markdown_def s)
qed

lemma strip_markdown_bare:
  assumes "obj \<noteq> []" "hd obj = 123" "last obj = 125" "blank w1" "blank w2"
  shows "strip_markdown (strip (w1 @ obj @ w2)) = obj"
  using strip_wrap [OF assms(4,5,1)] assms not_space_123 not_space_125
  by (simp add: strip_markdown_object)

lemma strip_markdown_token:
  assumes "obj \<noteq> []" "hd obj = 123" "last obj = 125" "blank w1" "blank w2" "blank w3"
  shows "strip_markdown (strip (w1 @ json_kw @ w2 @ obj @ w3)) = obj"
proof -
  let ?x = "json_kw @ w2 @ obj"
  have x: "?x \<noteq> []" "\<not> is_space (hd ?x)" "\<not> is_space (last ?x)"
    using assms(1,3) not_space_106 not_space_125 by (simp_all add: json_kw_eq)
  have "strip (w1 @ ?x @ w3) = ?x" by (rule strip_wrap [OF assms(4,6) x])
  then have t: "strip (w1 @ json_kw @ w2 @ obj @ w3) = ?x" by simp
  have s: "strip ?x = ?x" using x by (intro strip_id) (simp add: stripped_def)
  have nf: "\<not> prefix fence ?x"
  proof
    assume "prefix fence ?x"
    then have "hd ?x = 96" using prefix_fence_hd by blast
    then show False by (simp add: json_kw_eq)
  qed
  have "strip (drop 4 ?x) = obj"
    using strip_wrap [OF assms(5) _ assms(1), of "[]"] assms(2,3) not_space_123 not_space_125
    by (simp add: json_kw_eq blank_def)
  then show ?thesis by (simp add: t strip_markdown_def s nf)
qed

lemma strip_markdown_fenced:
  assumes "obj \<noteq> []" "hd obj = 123" "last obj = 125" "\<not> sublist fence obj"
    and "blank w1" "blank w2" "blank w3" "tag = [] \<or> tag = json_kw"
  shows "strip_markdown (strip (w1 @ fence @ tag @ w2 @ obj @ w3 @ fence @ rest)) = obj"
proof -
  let ?tail = "w3 @ fence @ rstrip rest"
  let ?x = "fence @ tag @ w2 @ obj @ w3 @ fence"
  have x: "?x \<noteq> []" "\<not> is_space (hd ?x)" "\<not> is_space (last ?x)"
    using not_space_96 by (simp_all add: fence_eq)
  have "strip (w1 @ ?x @ rest) = ?x @ rstrip rest" by (rule strip_wrap_rest [OF assms(5) x])
  then have t: "strip (w1 @ fence @ tag @ w2 @ obj @ w3 @ fence @ rest) =
                  fence @ tag @ w2 @ obj @ ?tail" by simp
  have s: "strip (fence @ tag @ w2 @ obj @ ?tail) = fence @ tag @ w2 @ obj @ ?tail"
    using strip_strip [of "w1 @ fence @ tag @ w2 @ obj @ w3 @ fence @ rest"] by (simp only: t)
  have g: "rx_group (obj @ ?tail) = Some obj"
    by (rule rx_group_object [OF assms(4,3,7)])
  have "rx_tag_group (tag @ w2 @ obj @ ?tail) = Some obj"
    using assms(8) rx_tag_group_untagged [OF assms(6) _ _ g] rx_tag_group_tagged [OF assms(6) _ _ g]
      assms(1,2) by auto
  then have r: "re_search_fence (fence @ tag @ w2 @ obj @ ?tail) = Some obj"
    by (rule re_search_fence_fenced)
  have so: "strip obj = obj"
    using assms(1-3) not_space_123 not_space_125 by (intro strip_id) (simp add: stripped_def)
  have nj: "\<not> prefix json_kw obj" using prefix_json_kw_hd assms(2) by fastforce
  show ?thesis
    by (simp add: t strip_markdown_def s r so nj)
qed

lemma map_of_key: "map_of kvs k = Some v \<Longrightarrow> k \<in> fst ` set kvs"
  by (induction kvs) (auto split: if_splits)

lemma extract_evaluation_object:
  assumes c: "strip_markdown (strip content) = obj"
    and l: "json_loads E obj = Inr (JDict kvs)"
    and sc: "map_of kvs (u ''score'') = Some v" "py_int E v = Inr k" "1 \<le> k" "k \<le> 5"
    and sm: "map_of kvs (u ''summary'') = Some (JStr s)"
    and im: "map_of kvs (u ''improvement'') = Some (JStr i)"
  shows "extract_evaluation E content =
           Inr \<lparr>EvaluationResponse.score = k, summary = s, improvement = i\<rparr>"
proof -
  have p: "parse_json E (strip_markdown (strip content)) = Inr (JDict kvs)"
    by (simp add: c parse_json_def l)
  have "validate_and_build E (JDict kvs) =
          Inr \<lparr>EvaluationResponse.score = k, summary = s, improvement = i\<rparr>"
    using sc sm im map_of_key [OF sc(1)] map_of_key [OF sm] map_of_key [OF im]
    by (simp add: validate_and_build_def missing_fields_dict and_then_def
        make_EvaluationResponse_def py_str_def)
  then show ?thesis by (simp add: extract_evaluation_parsed [OF p])
qed

text \<open>
  C3 (amended). Let \<open>obj\<close> be the text of a JSON object, from its opening to its closing
  brace, that \<open>json.loads\<close> parses to an object whose score coerces to \<open>k\<close> with
  \<open>1 \<le> k \<le> 5\<close> and whose summary and improvement are the strings \<open>s\<close> and \<open>i\<close>. If the
  response is \<open>obj\<close> bare, or after a leading \<open>json\<close> token, or inside code fences with or
  without the \<open>json\<close> tag and \<open>obj\<close> contains no fence marker, each with optional whitespace
  around the parts, then the extractor returns exactly score \<open>k\<close>, summary \<open>s\<close>,
  improvement \<open>i\<close>. With the reference libraries the object of the specification's example
  in \<open>```json\<close> fences gives score 4, summary \<open>Good\<close>, improvement \<open>Add examples\<close>.
\<close>

theorem extract_recovers_fields:
  assumes obj: "obj \<noteq> []" "hd obj = 123" "last obj = 125"
    and l: "json_loads E obj = Inr (JDict kvs)"
    and sc: "map_of kvs (u ''score'') = Some v" "py_int E v = Inr k" "1 \<le> k" "k \<le> 5"
    and sm: "map_of kvs (u ''summary'') = Some (JStr s)"
    and im: "map_of kvs (u ''improvement'') = Some (JStr i)"
    and ws: "blank w1" "blank w2" "blank w3"
    and form: "content = w1 @ obj @ w2 \<or>
               content = w1 @ json_kw @ w2 @ obj @ w3 \<or>
               \<not> sublist fence obj \<and>
                 (content = w1 @ fence @ w2 @ obj @ w3 @ fence @ rest \<or>
                  content = w1 @ fence @ json_kw @ w2 @ obj @ w3 @ fence @ rest)"
  shows \<open>extract_evaluation E content =
           Inr \<lparr>EvaluationResponse.score = k, summary = s, improvement = i\<rparr> \<and>
         extract_evaluation (reference_env provider)
           (u ''```json\<newline>{"score": "4", "summary": "Good", "improvement": "Add examples"}\<newline>```'') =
           Inr \<lparr>EvaluationResponse.score = 4, summary = u ''Good'',
                improvement = u ''Add examples''\<rparr>\<close>
proof
  have "strip_markdown (strip content) = obj"
    using form
  proof (elim disjE conjE)
    assume "content = w1 @ obj @ w2"
    then show ?thesis using strip_markdown_bare [OF obj ws(1,2)] by simp
  next
    assume "content = w1 @ json_kw @ w2 @ obj @ w3"
    then show ?thesis using strip_markdown_token [OF obj ws] by simp
  next
    assume "\<not> sublist fence obj" "content = w1 @ fence @ w2 @ obj @ w3 @ fence @ rest"
    then show ?thesis
      using strip_markdown_fenced [OF obj _ ws, of "[]" rest] by simp
  next
    assume "\<not> sublist fence obj" "content = w1 @ fence @ json_kw @ w2 @ obj @ w3 @ fence @ rest"
    then show ?thesis
      using strip_markdown_fenced [OF obj _ ws, of json_kw rest] by simp
  qed
  then show "extract_evaluation E content =
           Inr \<lparr>EvaluationResponse.score = k, summary = s, improvement = i\<rparr>"
    using l sc sm im by (rule extract_evaluation_object)
next
  show \<open>extract_evaluation (reference_env provider)
           (u ''```json\<newline>{"score": "4", "summary": "Good", "improvement": "Add examples"}\<newline>```'') =
           Inr \<lparr>EvaluationResponse.score = 4, summary = u ''Good'',
                improvement = u ''Add examples''\<rparr>\<close>
    by (simp add: extract_eval text_eval json_eval)
qed

theorem extract_recovers_fields_witness:
  \<open>extract_evaluation (reference_env (canned []))
      (u ''```'' @ u ''\<newline>'' @ u ''{"score": 5, "summary": "Clear", "improvement": "Add tests"}'' @
       u '' \<newline>'' @ u ''```'' @ u '' Hope this helps.'') =
     Inr \<lparr>EvaluationResponse.score = 5, summary = u ''Clear'', improvement = u ''Add tests''\<rparr> \<and>
   \<not> sublist fence (u ''{"score": 5, "summary": "Clear", "improvement": "Add tests"}'') \<and>
   json_loads (reference_env (canned []))
      (u ''{"score": 5, "summary": "Clear", "improvement": "Add tests"}'') =
     Inr (JDict [(u ''score'', JInt 5), (u ''summary'', JStr (u ''Clear'')),
                 (u ''improvement'', JStr (u ''Add tests''))])\<close>
proof -
  let ?E = "reference_env (canned [])"
  let ?obj = \<open>u ''{"score": 5, "summary": "Clear", "improvement": "Add tests"}''\<close>
  let ?kvs = "[(u ''score'', JInt 5), (u ''summary'', JStr (u ''Clear'')),
               (u ''improvement'', JStr (u ''Add tests''))]"
  have obj: "?obj \<noteq> []" "hd ?obj = 123" "last ?obj = 125" by (simp_all add: u_def)
  have l: "json_loads ?E ?obj = Inr (JDict ?kvs)"
    by (simp add: reference_env_def json_eval)
  have sc: "map_of ?kvs (u ''score'') = Some (JInt 5)" "py_int ?E (JInt 5) = Inr 5"
    "(1::int) \<le> 5" "(5::int) \<le> 5"
    by (simp_all add: reference_env_def ref_int_def)
  have sm: "map_of ?kvs (u ''summary'') = Some (JStr (u ''Clear''))" by (simp add: u_def)
  have im: "map_of ?kvs (u ''improvement'') = Some (JStr (u ''Add tests''))" by (simp add: u_def)
  have ws: "blank []" "blank (u ''\<newline>'')" "blank (u '' \<newline>'')"
    by (simp_all add: blank_def u_def is_space_def)
  have nf: "\<not> sublist fence ?obj"
    by (simp add: fence_eq u_def sublist_Cons_right prefix_Cons)
  have form: "[] @ fence @ u ''\<newline>'' @ ?obj @ u '' \<newline>'' @ fence @ u '' Hope this helps.'' =
      [] @ ?obj @ u ''\<newline>'' \<or>
      [] @ fence @ u ''\<newline>'' @ ?obj @ u '' \<newline>'' @ fence @ u '' Hope this helps.'' =
      [] @ json_kw @ u ''\<newline>'' @ ?obj @ u '' \<newline>'' \<or>
      \<not> sublist fence ?obj \<and>
        ([] @ fence @ u ''\<newline>'' @ ?obj @ u '' \<newline>'' @ fence @ u '' Hope this helps.'' =
           [] @ fence @ u ''\<newline>'' @ ?obj @ u '' \<newline>'' @ fence @ u '' Hope this helps.'' \<or>
         [] @ fence @ u ''\<newline>'' @ ?obj @ u '' \<newline>'' @ fence @ u '' Hope this helps.'' =
           [] @ fence @ json_kw @ u ''\<newline>'' @ ?obj @ u '' \<newline>'' @ fence @ u '' Hope this helps.'')"
    using nf by blast
  from extract_recovers_fields [OF obj l sc sm im ws form, of "canned []"]
  have "extract_evaluation ?E
          ([] @ fence @ u ''\<newline>'' @ ?obj @ u '' \<newline>'' @ fence @ u '' Hope this helps.'') =
        Inr \<lparr>EvaluationResponse.score = 5, summary = u ''Clear'', improvement = u ''Add tests''\<rparr>"
    by blast
  then show ?thesis using nf l by (simp add: fence_def)
qed

text \<open>
  C3 as stated fails: a well-formed object whose summary contains a fence marker, wrapped
  in \<open>```json\<close> fences, is cut at that marker by the lazy fence pattern, and what is left
  does not parse.
\<close>

theorem fence_inside_summary_breaks_extraction:
  \<open>json_loads (reference_env (canned []))
      (u ''{"score": 4, "summary": "use ``` fences", "improvement": "x"}'') =
     Inr (JDict [(u ''score'', JInt 4), (u ''summary'', JStr (u ''use ``` fences'')),
                 (u ''improvement'', JStr (u ''x''))]) \<and>
   extract_evaluation (reference_env (canned []))
      (u ''```json\<newline>{"score": 4, "summary": "use ``` fences", "improvement": "x"}\<newline>```'') =
     Inl (HTTPException 500
            (u ''Could not parse JSON from response: {"score": 4, "summary": "use''))\<close>
  by (simp add: extract_eval text_eval json_eval)

end
